theory Spec2Isabelle
  imports Complex_Main
begin

section \<open>JavaScript values of the request body\<close>

text \<open>
  The handlers of \<^verbatim>\<open>src/server.js\<close> read \<^verbatim>\<open>req.body\<close>, the value that
  \<^verbatim>\<open>express.json()\<close> parsed from the request.

  A JavaScript string is a sequence of UTF-16 code units, here a list of integers;
  \<open>lit\<close> turns a literal of the source into its code units. Texts that the program
  only produces (error messages, the texts of a response) are kept as \<open>string\<close>.

  A parsed number is a double. \<open>JNum s e\<close> is the finite double that JavaScript
  prints as the decimal number \<open>s \<times> 10^e\<close>: the digits of \<open>s\<close> without its sign and
  its trailing zeros are the digits of the shortest decimal form of the double, which
  is what \<^verbatim>\<open>Number::toString\<close> works on. So \<open>JNum 15 0\<close> is \<^verbatim>\<open>15\<close>,
  \<open>JNum (- 25) (- 1)\<close> is \<^verbatim>\<open>-2.5\<close> and \<open>JNum 1 21\<close> is \<^verbatim>\<open>1e21\<close>. Both
  zeros are \<open>JNum 0 e\<close>: they are printed alike and both are falsy. \<open>JInfinity neg\<close>
  is the value a number too large for a double is parsed to. Every finite double has
  one shortest form, of at most 17 digits; a pair that is the shortest form of no
  double (such as \<open>JNum 99999999999999999 (- 16)\<close>, a text that is parsed to the
  double 10, which is \<open>JNum 1 1\<close>) stands for no parsed value.

  An object keeps its members in source order, and a member that occurs twice has the
  value of its last occurrence, as \<^verbatim>\<open>JSON.parse\<close> has it.
\<close>

type_synonym jstring = "int list"

definition lit :: "string \<Rightarrow> jstring" where
  "lit s = map of_char s"

datatype json =
    JNull
  | JBool bool
  | JNum int int
  | JInfinity bool
  | JStr jstring
  | JArr "json list"
  | JObj "(jstring \<times> json) list"

text \<open>
  The members of the object \<^verbatim>\<open>req.body\<close>. Reading a member that is not there
  gives \<^verbatim>\<open>undefined\<close>, which is \<open>None\<close> here. A body that is an array has none
  of the members the handlers read.
\<close>

type_synonym body = "(jstring \<times> json) list"

definition field :: "(jstring \<times> json) list \<Rightarrow> string \<Rightarrow> json option" where
  "field kvs k = map_of (rev kvs) (lit k)"

text \<open>
  Property access \<^verbatim>\<open>c.name\<close> and \<^verbatim>\<open>c.value\<close> on a value of an array:
  \<^verbatim>\<open>null\<close> raises a TypeError (the message is V8's), an object gives its member,
  and a boolean, number, string or array has no own or inherited property of these
  two names.
\<close>

fun get_prop :: "json \<Rightarrow> string \<Rightarrow> string + json option" where
  "get_prop JNull k =
     Inl (''Cannot read properties of null (reading '' @ [CHR 0x27] @ k @ [CHR 0x27] @ '')'')"
| "get_prop (JObj kvs) k = Inr (field kvs k)"
| "get_prop _ k = Inr None"

text \<open>Truthiness, as \<^verbatim>\<open>!x\<close>, \<^verbatim>\<open>x && y\<close> and \<^verbatim>\<open>if (x)\<close> test it.\<close>

fun truthy :: "json option \<Rightarrow> bool" where
  "truthy None = False"
| "truthy (Some JNull) = False"
| "truthy (Some (JBool b)) = b"
| "truthy (Some (JNum s e)) = (s \<noteq> 0)"
| "truthy (Some (JInfinity neg)) = True"
| "truthy (Some (JStr s)) = (s \<noteq> [])"
| "truthy (Some (JArr xs)) = True"
| "truthy (Some (JObj kvs)) = True"

fun isArray :: "json option \<Rightarrow> bool" where
  "isArray (Some (JArr xs)) = True"
| "isArray _ = False"

subsection \<open>Strings\<close>

text \<open>
  The code units that \<^verbatim>\<open>String.prototype.trim\<close> strips and \<^verbatim>\<open>parseInt\<close> skips:
  ECMAScript's WhiteSpace (tab, vertical tab, form feed, U+FEFF and the space
  separators U+0020, U+00A0, U+1680, U+2000 to U+200A, U+202F, U+205F, U+3000) and
  LineTerminator (line feed, carriage return, U+2028, U+2029).
\<close>

definition is_ws :: "int \<Rightarrow> bool" where
  "is_ws c =
     (c \<in> set [0x09, 0x0A, 0x0B, 0x0C, 0x0D, 0x20, 0xA0, 0x1680,
                0x2028, 0x2029, 0x202F, 0x205F, 0x3000, 0xFEFF] \<or>
      (0x2000 \<le> c \<and> c \<le> 0x200A))"

definition trim :: "jstring \<Rightarrow> jstring" where
  "trim s = rev (dropWhile is_ws (rev (dropWhile is_ws s)))"

text \<open>The decimal digits of a number that is not negative.\<close>

function idigits :: "int \<Rightarrow> string" where
  "idigits n =
     (if n < 10 then [''0123456789'' ! nat n]
      else idigits (n div 10) @ [''0123456789'' ! nat (n mod 10)])"
  by pat_completeness auto
termination
  by (relation "measure nat") auto

declare idigits.simps [simp del]

definition digits :: "nat \<Rightarrow> string" where
  "digits n = idigits (int n)"

text \<open>
  \<^verbatim>\<open>Number::toString\<close> for radix 10. With \<open>k\<close> digits and \<open>n = e + k\<close> (so that the
  value is \<open>0.d\<^sub>1\<dots>d\<^sub>k \<times> 10^n\<close>): the digits followed by zeros when \<open>k \<le> n \<le> 21\<close>,
  a decimal point inside the digits when \<open>0 < n \<le> 21\<close>, \<^verbatim>\<open>0.\<close> and zeros before
  the digits when \<open>-6 < n \<le> 0\<close>, and the exponent form otherwise.
\<close>

function strip_zeros :: "int \<Rightarrow> int \<Rightarrow> int \<times> int" where
  "strip_zeros s e =
     (if 0 < s \<and> s mod 10 = 0 then strip_zeros (s div 10) (e + 1) else (s, e))"
  by pat_completeness auto
termination
  by (relation "measure (\<lambda>(s, e). nat s)") auto

declare strip_zeros.simps [simp del]

definition Number_toString :: "int \<Rightarrow> int \<Rightarrow> string" where
  "Number_toString s e =
     (if s = 0 then ''0''
      else
        let (m, e') = strip_zeros \<bar>s\<bar> e;
            ds = idigits m;
            k = int (length ds);
            n = e' + k;
            ex = n - 1;
            exponent = CHR ''e'' # (if ex < 0 then CHR ''-'' else CHR ''+'') # idigits \<bar>ex\<bar>;
            shown =
              (if k \<le> n \<and> n \<le> 21 then ds @ replicate (nat (n - k)) CHR ''0''
               else if 0 < n \<and> n \<le> 21 then take (nat n) ds @ ''.'' @ drop (nat n) ds
               else if - 6 < n \<and> n \<le> 0 then ''0.'' @ replicate (nat (- n)) CHR ''0'' @ ds
               else if k = 1 then ds @ exponent
               else take 1 ds @ ''.'' @ drop 1 ds @ exponent)
        in if s < 0 then CHR ''-'' # shown else shown)"

text \<open>
  \<^verbatim>\<open>Array.prototype.join\<close> on the printed elements, in order: the first element
  whose printing raises ends the call.
\<close>

fun join_results :: "(string + jstring) list \<Rightarrow> string + jstring" where
  "join_results [] = Inr []"
| "join_results [r] = r"
| "join_results (r # t # rs) =
     (case r of
        Inl e \<Rightarrow> Inl e
      | Inr s \<Rightarrow>
          (case join_results (t # rs) of
             Inl e \<Rightarrow> Inl e
           | Inr u \<Rightarrow> Inr (s @ lit '','' @ u)))"

text \<open>
  \<^verbatim>\<open>ToString\<close>, which \<^verbatim>\<open>parseInt\<close> applies to its argument. An array prints its
  elements separated by commas, with \<^verbatim>\<open>null\<close> printed as the empty string. An
  object is printed by its \<^verbatim>\<open>toString\<close> method: the inherited one gives
  \<^verbatim>\<open>[object Object]\<close>; an own member of that name is a parsed value, hence not
  callable, and the inherited \<^verbatim>\<open>valueOf\<close> returns the object, so the conversion
  raises a TypeError (the message is V8's).
\<close>

fun ToString :: "json \<Rightarrow> string + jstring" where
  "ToString JNull = Inr (lit ''null'')"
| "ToString (JBool b) = Inr (lit (if b then ''true'' else ''false''))"
| "ToString (JNum s e) = Inr (lit (Number_toString s e))"
| "ToString (JInfinity neg) = Inr (lit (if neg then ''-Infinity'' else ''Infinity''))"
| "ToString (JStr s) = Inr s"
| "ToString (JArr xs) =
     join_results (map (\<lambda>x. if x = JNull then Inr [] else ToString x) xs)"
| "ToString (JObj kvs) =
     (if field kvs ''toString'' \<noteq> None then Inl ''Cannot convert object to primitive value''
      else Inr (lit ''[object Object]''))"

section \<open>Numbers\<close>

text \<open>
  The values a JavaScript number takes in the handlers: \<^verbatim>\<open>NaN\<close>, the two
  infinities (\<open>Inf True\<close> is \<^verbatim>\<open>+Infinity\<close>) and the finite values, kept exact.
  The sign of zero is not represented. The quotient and product of the success rate
  are computed exactly; for \<open>0 \<le> successful \<le> shareCount \<le> 10\<close> the double
  precision result rounds to the same integer, since the exact value is either a
  multiple of one half with denominator 8 (exact in binary) or at least 1/20 away
  from the next half.
\<close>

datatype number = NaN | Inf bool | Num rat

fun js_lt :: "number \<Rightarrow> number \<Rightarrow> bool" where
  "js_lt NaN y = False"
| "js_lt x NaN = False"
| "js_lt (Num a) (Num b) = (a < b)"
| "js_lt (Num a) (Inf t) = t"
| "js_lt (Inf s) (Num b) = (\<not> s)"
| "js_lt (Inf s) (Inf t) = (\<not> s \<and> t)"

definition Math_max :: "number \<Rightarrow> number \<Rightarrow> number" where
  "Math_max x y = (if x = NaN \<or> y = NaN then NaN else if js_lt x y then y else x)"

definition Math_min :: "number \<Rightarrow> number \<Rightarrow> number" where
  "Math_min x y = (if x = NaN \<or> y = NaN then NaN else if js_lt y x then y else x)"

fun js_sub :: "number \<Rightarrow> number \<Rightarrow> number" where
  "js_sub (Num a) (Num b) = Num (a - b)"
| "js_sub NaN y = NaN"
| "js_sub x NaN = NaN"
| "js_sub (Inf s) (Inf t) = (if s = t then NaN else Inf s)"
| "js_sub (Inf s) (Num b) = Inf s"
| "js_sub (Num a) (Inf t) = Inf (\<not> t)"

fun js_mul :: "number \<Rightarrow> number \<Rightarrow> number" where
  "js_mul (Num a) (Num b) = Num (a * b)"
| "js_mul NaN y = NaN"
| "js_mul x NaN = NaN"
| "js_mul (Inf s) (Inf t) = Inf (s = t)"
| "js_mul (Inf s) (Num b) = (if b = 0 then NaN else Inf (s = (0 < b)))"
| "js_mul (Num a) (Inf t) = (if a = 0 then NaN else Inf (t = (0 < a)))"

fun js_div :: "number \<Rightarrow> number \<Rightarrow> number" where
  "js_div (Num a) (Num b) =
     (if b = 0 then (if a = 0 then NaN else Inf (0 < a)) else Num (a / b))"
| "js_div NaN y = NaN"
| "js_div x NaN = NaN"
| "js_div (Inf s) (Inf t) = NaN"
| "js_div (Inf s) (Num b) = Inf (s = (0 \<le> b))"
| "js_div (Num a) (Inf t) = Num 0"

text \<open>\<^verbatim>\<open>Math.round\<close>: the nearest integer, a tie going up.\<close>

fun Math_round :: "number \<Rightarrow> number" where
  "Math_round (Num a) = Num (of_int \<lfloor>a + 1 / 2\<rfloor>)"
| "Math_round x = x"

subsection \<open>parseInt\<close>

text \<open>
  \<^verbatim>\<open>parseInt(x)\<close> with no radix: print \<open>x\<close> (which may raise), skip leading white
  space, read a sign, read the prefix \<^verbatim>\<open>0x\<close> or \<^verbatim>\<open>0X\<close> (then the radix is 16,
  otherwise 10), and take the longest run of digits of the radix; no digit gives
  \<^verbatim>\<open>NaN\<close>. The value of a long run of digits is kept exact here, where JavaScript
  rounds it to a double.
\<close>

fun index_of :: "int \<Rightarrow> jstring \<Rightarrow> nat option" where
  "index_of c [] = None"
| "index_of c (d # ds) =
     (if c = d then Some 0 else map_option Suc (index_of c ds))"

definition digit_val :: "nat \<Rightarrow> int \<Rightarrow> nat option" where
  "digit_val radix c =
     (case index_of c (lit ''0123456789abcdef'') of
        Some v \<Rightarrow> if v < radix then Some v else None
      | None \<Rightarrow>
          (case index_of c (lit ''ABCDEF'') of
             Some v \<Rightarrow> if v + 10 < radix then Some (v + 10) else None
           | None \<Rightarrow> None))"

fun parse_digits :: "nat \<Rightarrow> jstring \<Rightarrow> int option \<Rightarrow> int option" where
  "parse_digits radix [] acc = acc"
| "parse_digits radix (c # cs) acc =
     (case digit_val radix c of
        None \<Rightarrow> acc
      | Some v \<Rightarrow>
          parse_digits radix cs
            (Some (int radix * (case acc of None \<Rightarrow> 0 | Some a \<Rightarrow> a) + int v)))"

definition parse_sign :: "jstring \<Rightarrow> int \<times> jstring" where
  "parse_sign s =
     (case s of
        c # r \<Rightarrow>
          if c = of_char CHR ''-'' then (- 1, r)
          else if c = of_char CHR ''+'' then (1, r) else (1, s)
      | [] \<Rightarrow> (1, s))"

definition parse_radix :: "jstring \<Rightarrow> nat \<times> jstring" where
  "parse_radix s =
     (case s of
        c # d # r \<Rightarrow>
          if c = of_char CHR ''0'' \<and> (d = of_char CHR ''x'' \<or> d = of_char CHR ''X'')
          then (16, r) else (10, s)
      | _ \<Rightarrow> (10, s))"

definition parseInt_string :: "jstring \<Rightarrow> number" where
  "parseInt_string s =
     (let (sign, s1) = parse_sign (dropWhile is_ws s);
          (radix, s2) = parse_radix s1
      in case parse_digits radix s2 None of
           None \<Rightarrow> NaN
         | Some v \<Rightarrow> Num (of_int (sign * v)))"

definition parseInt :: "json \<Rightarrow> string + number" where
  "parseInt x = (case ToString x of Inl e \<Rightarrow> Inl e | Inr s \<Rightarrow> Inr (parseInt_string s))"

section \<open>The browser\<close>

text \<open>
  Puppeteer and the page it drives are outside the program. Every call the handlers
  make to them either returns or raises an error with a message; what it does is a
  parameter of the model. A call site inside the posting loop runs at most once in an
  iteration, so the behaviour of the page during a run is a function from the
  iteration to the outcome of each call site. \<open>None\<close> is a call that returns,
  \<open>Some e\<close> one that raises an error with the message \<open>e\<close>; an
  \<^verbatim>\<open>evaluate\<close> call returns whether the element it looks for is in the document.
  \<^verbatim>\<open>page.waitForTimeout\<close> is a timer: it returns after the time given and has no
  other outcome.
\<close>

record page_behaviour =
  goto :: "string option"
  createPostPresent :: "string + bool"
  clickCreatePost :: "string option"
  typeMessage :: "jstring \<Rightarrow> string option"
  clickAddToPost :: "string option"
  typeLink :: "jstring \<Rightarrow> string option"
  clickPost :: "string option"
  createPostPresentAfter :: "string + bool"
  now :: string

record browser =
  launch :: "string option"
  newPage :: "string option"
  setViewport :: "string option"
  setUserAgent :: "string option"
  setCookie :: "json list \<Rightarrow> string option"
  pages :: "nat \<Rightarrow> page_behaviour"
  home_goto :: "string option"
  landmarkPresent :: "string + bool"
  profilePresent :: "string + bool"

text \<open>
  What a handler does to the outside, in order: the call of \<^verbatim>\<open>puppeteer.launch\<close>,
  the browser it returned, the start of an iteration of the posting loop (the log line
  \<^verbatim>\<open>Attempt i + 1 of shareCount\<close>, with the ordinal), the delay between two
  attempts (in milliseconds), the response, and \<^verbatim>\<open>browser.close()\<close>.
\<close>

datatype event =
    LaunchCalled
  | BrowserAcquired
  | AttemptStarted nat
  | Delayed number
  | Responded
  | BrowserClosed

section \<open>Responses\<close>

record attempt_record =
  attempt :: nat
  success :: bool
  message :: "string option"
  error :: "string option"
  timestamp :: string

record summary =
  total :: number
  successful :: nat
  failed :: nat
  successRate :: number

text \<open>
  The object given to \<^verbatim>\<open>res.json\<close>: \<open>ErrorBody e\<close> is
  \<^verbatim>\<open>{success: false, error: e}\<close>, the other two carry \<^verbatim>\<open>success: true\<close>.
\<close>

datatype payload =
    ErrorBody string
  | Validated string string "json option"
  | Shared "attempt_record list" summary

record response =
  status :: nat
  payload :: payload

section \<open>Sequencing calls that may raise\<close>

definition andThen :: "string option \<Rightarrow> (string + 'a) \<Rightarrow> string + 'a" where
  "andThen r k = (case r of Some e \<Rightarrow> Inl e | None \<Rightarrow> k)"

definition before :: "string option \<Rightarrow> string option \<Rightarrow> string option" where
  "before r k = (case r of Some e \<Rightarrow> Some e | None \<Rightarrow> k)"

text \<open>The four calls that follow \<^verbatim>\<open>puppeteer.launch\<close> in both handlers.\<close>

definition open_page :: "browser \<Rightarrow> json list \<Rightarrow> string option" where
  "open_page env cookies =
     before (newPage env)
       (before (setViewport env) (before (setUserAgent env) (setCookie env cookies)))"

fun elements :: "json option \<Rightarrow> json list" where
  "elements (Some (JArr xs)) = xs"
| "elements _ = []"

section \<open>POST /api/validate\<close>

text \<open>\<^verbatim>\<open>appstate.find(c => c.name === n)\<close>\<close>

fun find_named :: "string \<Rightarrow> json list \<Rightarrow> string + json option" where
  "find_named n [] = Inr None"
| "find_named n (c # cs) =
     (case get_prop c ''name'' of
        Inl e \<Rightarrow> Inl e
      | Inr v \<Rightarrow> if v = Some (JStr (lit n)) then Inr (Some c) else find_named n cs)"

text \<open>\<^verbatim>\<open>c_user.value\<close>, read once \<open>c_user\<close> is known to be truthy.\<close>

definition value_of :: "json option \<Rightarrow> json option" where
  "value_of c =
     (case c of
        Some x \<Rightarrow> (case get_prop x ''value'' of Inr v \<Rightarrow> v | Inl e \<Rightarrow> None)
      | None \<Rightarrow> None)"

text \<open>
  The \<^verbatim>\<open>try\<close> block: the response it sends or the message of the error it raises,
  whether the variable \<^verbatim>\<open>browser\<close> is set when the block is left, and the events
  so far.
\<close>

definition validate_try :: "browser \<Rightarrow> body \<Rightarrow> (string + response) \<times> bool \<times> event list" where
  "validate_try env b =
     (let appstate = field b ''appstate'' in
      if \<not> truthy appstate \<or> \<not> isArray appstate then
        (Inr \<lparr>status = 400,
              payload = ErrorBody ''Invalid AppState format. Must be an array of cookies.''\<rparr>,
         False, [])
      else
        case find_named ''c_user'' (elements appstate) of
          Inl e \<Rightarrow> (Inl e, False, [])
        | Inr c_user \<Rightarrow>
            (case find_named ''xs'' (elements appstate) of
               Inl e \<Rightarrow> (Inl e, False, [])
             | Inr xs \<Rightarrow>
                 if \<not> truthy c_user \<or> \<not> truthy xs then
                   (Inr \<lparr>status = 400,
                         payload = ErrorBody ''Missing required cookies: c_user or xs''\<rparr>,
                    False, [])
                 else
                   (case launch env of
                      Some e \<Rightarrow> (Inl e, False, [LaunchCalled])
                    | None \<Rightarrow>
                        (andThen (open_page env (elements appstate))
                           (andThen (home_goto env)
                              (case landmarkPresent env of
                                 Inl e \<Rightarrow> Inl e
                               | Inr isLoggedIn \<Rightarrow>
                                   if isLoggedIn then
                                     (case profilePresent env of
                                        Inl e \<Rightarrow> Inl e
                                      | Inr profileLink \<Rightarrow>
                                          Inr \<lparr>status = 200,
                                               payload = Validated
                                                 ''Session is valid and ready for automation''
                                                 (if profileLink then ''Your profile''
                                                  else ''Facebook User'')
                                                 (value_of c_user)\<rparr>)
                                   else
                                     Inr \<lparr>status = 401,
                                          payload = ErrorBody
                                            ''Invalid session - unable to login with provided cookies''\<rparr>)),
                         True, [LaunchCalled, BrowserAcquired]))))"

text \<open>
  \<^verbatim>\<open>catch\<close> and \<^verbatim>\<open>finally\<close>: an error raised in the block is answered with
  status 500; every path has then sent its response, and the browser is closed when
  the variable is set.
\<close>

definition finish :: "string \<Rightarrow> (string + response) \<times> bool \<times> event list \<Rightarrow> response \<times> event list" where
  "finish prefix r =
     (case r of
        (outcome, browser_set, evs) \<Rightarrow>
          ((case outcome of
              Inr resp \<Rightarrow> resp
            | Inl e \<Rightarrow> \<lparr>status = 500, payload = ErrorBody (prefix @ e)\<rparr>),
           evs @ [Responded] @ (if browser_set then [BrowserClosed] else [])))"

definition validate :: "browser \<Rightarrow> body \<Rightarrow> response \<times> event list" where
  "validate env b = finish ''Validation failed: '' (validate_try env b)"

section \<open>POST /api/share\<close>

text \<open>Destructuring with a default: \<^verbatim>\<open>count = 1\<close> applies when the member is undefined.\<close>

definition with_default :: "json option \<Rightarrow> json \<Rightarrow> json" where
  "with_default v d = (case v of None \<Rightarrow> d | Some x \<Rightarrow> x)"

text \<open>
  \<^verbatim>\<open>!message || message.trim().length === 0\<close>. A truthy value that is not a
  string has no \<^verbatim>\<open>trim\<close>, and the call raises a TypeError.
\<close>

definition message_blank :: "json option \<Rightarrow> string + bool" where
  "message_blank m =
     (if \<not> truthy m then Inr True
      else case m of
             Some (JStr s) \<Rightarrow> Inr (length (trim s) = 0)
           | _ \<Rightarrow> Inl ''message.trim is not a function'')"

fun text_of :: "json option \<Rightarrow> jstring" where
  "text_of (Some (JStr s)) = s"
| "text_of _ = []"

text \<open>
  \<^verbatim>\<open>Math.min(Math.max(parseInt(count), 1), 10)\<close> and the same for the delay; an error
  raised by \<^verbatim>\<open>parseInt\<close> leaves the expression.
\<close>

definition shareCount :: "json \<Rightarrow> string + number" where
  "shareCount count =
     (case parseInt count of
        Inl e \<Rightarrow> Inl e
      | Inr p \<Rightarrow> Inr (Math_min (Math_max p (Num 1)) (Num 10)))"

definition shareDelay :: "json \<Rightarrow> string + number" where
  "shareDelay delay =
     (case parseInt delay of
        Inl e \<Rightarrow> Inl e
      | Inr p \<Rightarrow> Inr (Math_min (Math_max p (Num 5)) (Num 60)))"

text \<open>
  \<^verbatim>\<open>if (link && link.trim()) { click; type }\<close>, with the settle delays left out.
\<close>

definition link_steps :: "page_behaviour \<Rightarrow> json option \<Rightarrow> string option" where
  "link_steps pg lnk =
     (if \<not> truthy lnk then None
      else case lnk of
             Some (JStr s) \<Rightarrow>
               if trim s \<noteq> [] then before (clickAddToPost pg) (typeLink pg s) else None
           | _ \<Rightarrow> Some ''link.trim is not a function'')"

text \<open>
  The \<^verbatim>\<open>try\<close> block of iteration \<open>i\<close> up to the record it pushes: \<open>Inr\<close> the
  record of a published post, \<open>Inl\<close> the message of the error raised.
\<close>

definition attempt_try :: "page_behaviour \<Rightarrow> jstring \<Rightarrow> json option \<Rightarrow> nat \<Rightarrow> string + attempt_record" where
  "attempt_try pg msg lnk i =
     andThen (goto pg)
       (case createPostPresent pg of
          Inl e \<Rightarrow> Inl e
        | Inr isLoggedIn \<Rightarrow>
            if \<not> isLoggedIn then Inl ''Session expired during automation''
            else
              andThen (clickCreatePost pg)
                (andThen (typeMessage pg msg)
                   (andThen (link_steps pg lnk)
                      (andThen (clickPost pg)
                         (case createPostPresentAfter pg of
                            Inl e \<Rightarrow> Inl e
                          | Inr present \<Rightarrow>
                              let postSuccess = \<not> present in
                              if postSuccess then
                                Inr \<lparr>attempt = i + 1, success = True,
                                     message = Some (''Successfully shared post '' @ digits (i + 1)),
                                     error = None, timestamp = now pg\<rparr>
                              else Inl ''Post may not have been published'')))))"

text \<open>The \<^verbatim>\<open>catch\<close> of the iteration: the record of a failed attempt.\<close>

definition failure_record :: "page_behaviour \<Rightarrow> nat \<Rightarrow> string \<Rightarrow> attempt_record" where
  "failure_record pg i e =
     \<lparr>attempt = i + 1, success = False, message = None, error = Some e, timestamp = now pg\<rparr>"

definition attempt_result :: "page_behaviour \<Rightarrow> jstring \<Rightarrow> json option \<Rightarrow> nat \<Rightarrow> attempt_record" where
  "attempt_result pg msg lnk i =
     (case attempt_try pg msg lnk i of Inr r \<Rightarrow> r | Inl e \<Rightarrow> failure_record pg i e)"

text \<open>
  The delay after the record, in both branches:
  \<^verbatim>\<open>if (i < shareCount - 1) await page.waitForTimeout(shareDelay * 1000)\<close>.
\<close>

definition pause :: "number \<Rightarrow> number \<Rightarrow> nat \<Rightarrow> event list" where
  "pause cnt dly i =
     (if js_lt (Num (of_nat i)) (js_sub cnt (Num 1)) then [Delayed (js_mul dly (Num 1000))]
      else [])"

text \<open>One iteration of the loop, on the array \<^verbatim>\<open>results\<close> and the events.\<close>

definition iteration ::
  "page_behaviour \<Rightarrow> jstring \<Rightarrow> json option \<Rightarrow> number \<Rightarrow> number \<Rightarrow> nat \<Rightarrow>
   attempt_record list \<times> event list \<Rightarrow> attempt_record list \<times> event list" where
  "iteration pg msg lnk cnt dly i st =
     (case st of
        (results, evs) \<Rightarrow>
          (results @ [attempt_result pg msg lnk i],
           evs @ [AttemptStarted (i + 1)] @ pause cnt dly i))"

text \<open>
  \<^verbatim>\<open>for (let i = 0; i < shareCount; i++)\<close>. The loop does not end when the bound
  is \<^verbatim>\<open>+Infinity\<close>, hence the option; \<open>attempts_loop_Num\<close> and
  \<open>attempts_loop_NaN\<close> below show that it ends for the bounds the handler gives it.
\<close>

partial_function (option) attempts_loop ::
  "(nat \<Rightarrow> page_behaviour) \<Rightarrow> jstring \<Rightarrow> json option \<Rightarrow> number \<Rightarrow> number \<Rightarrow> nat \<Rightarrow>
   attempt_record list \<times> event list \<Rightarrow> (attempt_record list \<times> event list) option" where
  "attempts_loop pgs msg lnk cnt dly i st =
     (if js_lt (Num (of_nat i)) cnt
      then attempts_loop pgs msg lnk cnt dly (Suc i) (iteration (pgs i) msg lnk cnt dly i st)
      else Some st)"

definition successRate_of :: "nat \<Rightarrow> number \<Rightarrow> number" where
  "successRate_of s cnt = Math_round (js_mul (js_div (Num (of_nat s)) cnt) (Num 100))"

definition summary_of :: "attempt_record list \<Rightarrow> number \<Rightarrow> summary" where
  "summary_of results cnt =
     (let s = length (filter success results);
          f = length (filter (\<lambda>r. \<not> success r) results)
      in \<lparr>total = cnt, successful = s, failed = f, successRate = successRate_of s cnt\<rparr>)"

definition share_try ::
  "browser \<Rightarrow> body \<Rightarrow> ((string + response) \<times> bool \<times> event list) option" where
  "share_try env b =
     (let appstate = field b ''appstate'';
          msg = field b ''message'';
          lnk = field b ''link'';
          count = with_default (field b ''count'') (JNum 1 0);
          delay = with_default (field b ''delay'') (JNum 15 0)
      in
      if \<not> truthy appstate \<or> \<not> isArray appstate then
        Some (Inr \<lparr>status = 400, payload = ErrorBody ''Invalid AppState format''\<rparr>, False, [])
      else
        case message_blank msg of
          Inl e \<Rightarrow> Some (Inl e, False, [])
        | Inr True \<Rightarrow>
            Some (Inr \<lparr>status = 400, payload = ErrorBody ''Message is required''\<rparr>, False, [])
        | Inr False \<Rightarrow>
            (case shareCount count of
               Inl e \<Rightarrow> Some (Inl e, False, [])
             | Inr cnt \<Rightarrow>
                 (case shareDelay delay of
                    Inl e \<Rightarrow> Some (Inl e, False, [])
                  | Inr dly \<Rightarrow>
                      (case launch env of
                         Some e \<Rightarrow> Some (Inl e, False, [LaunchCalled])
                       | None \<Rightarrow>
                           (case open_page env (elements appstate) of
                              Some e \<Rightarrow> Some (Inl e, True, [LaunchCalled, BrowserAcquired])
                            | None \<Rightarrow>
                                (case attempts_loop (pages env) (text_of msg) lnk cnt dly 0 ([], []) of
                                   None \<Rightarrow> None
                                 | Some (results, evs) \<Rightarrow>
                                     Some (Inr \<lparr>status = 200,
                                                payload = Shared results (summary_of results cnt)\<rparr>,
                                           True, [LaunchCalled, BrowserAcquired] @ evs)))))))"

definition share :: "browser \<Rightarrow> body \<Rightarrow> (response \<times> event list) option" where
  "share env b = map_option (finish ''Sharing failed: '') (share_try env b)"

section \<open>Notions used in the statements\<close>

text \<open>
  Shorthands for writing requests, the number of iterations a loop bound allows, the
  records and events a run of that many iterations leaves, the clamped inputs of a
  request, and the predicates on requests, browsers and event sequences that the
  properties below speak about. The fixtures at the end are a page on which every
  step works, a browser whose every call returns, three pages on which one step goes
  wrong, and a pair of session cookies.
\<close>

definition str :: "string \<Rightarrow> json" where
  "str s = JStr (lit s)"

definition whole :: "nat \<Rightarrow> json" where
  "whole n = JNum (int n) 0"

definition obj :: "(string \<times> json) list \<Rightarrow> (jstring \<times> json) list" where
  "obj kvs = map (\<lambda>(k, v). (lit k, v)) kvs"

definition attempts_of :: "number \<Rightarrow> nat" where
  "attempts_of cnt = (case cnt of Num q \<Rightarrow> nat \<lceil>q\<rceil> | _ \<Rightarrow> 0)"

definition run_records :: "(nat \<Rightarrow> page_behaviour) \<Rightarrow> jstring \<Rightarrow> json option \<Rightarrow> nat \<Rightarrow> attempt_record list" where
  "run_records pgs msg lnk n = map (\<lambda>i. attempt_result (pgs i) msg lnk i) [0..<n]"

definition run_events :: "number \<Rightarrow> number \<Rightarrow> nat \<Rightarrow> event list" where
  "run_events cnt dly n = concat (map (\<lambda>i. AttemptStarted (i + 1) # pause cnt dly i) [0..<n])"

definition count_of :: "body \<Rightarrow> string + number" where
  "count_of b = shareCount (with_default (field b ''count'') (JNum 1 0))"

definition delay_of :: "body \<Rightarrow> string + number" where
  "delay_of b = shareDelay (with_default (field b ''delay'') (JNum 15 0))"

definition returned :: "string + 'a \<Rightarrow> bool" where
  "returned r = (case r of Inr v \<Rightarrow> True | Inl e \<Rightarrow> False)"

definition value_or_NaN :: "string + number \<Rightarrow> number" where
  "value_or_NaN r = (case r of Inr v \<Rightarrow> v | Inl e \<Rightarrow> NaN)"

definition valid_share_request :: "body \<Rightarrow> bool" where
  "valid_share_request b =
     (isArray (field b ''appstate'') \<and> message_blank (field b ''message'') = Inr False)"

definition session_opens :: "browser \<Rightarrow> body \<Rightarrow> bool" where
  "session_opens env b =
     (launch env = None \<and> open_page env (elements (field b ''appstate'')) = None)"

definition run_starts :: "browser \<Rightarrow> body \<Rightarrow> bool" where
  "run_starts env b =
     (valid_share_request b \<and> returned (count_of b) \<and> returned (delay_of b) \<and>
      session_opens env b)"

definition records_of :: "browser \<Rightarrow> body \<Rightarrow> attempt_record list" where
  "records_of env b =
     run_records (pages env) (text_of (field b ''message'')) (field b ''link'')
       (attempts_of (value_or_NaN (count_of b)))"

definition events_of :: "body \<Rightarrow> event list" where
  "events_of b =
     run_events (value_or_NaN (count_of b)) (value_or_NaN (delay_of b))
       (attempts_of (value_or_NaN (count_of b)))"

definition named :: "string \<Rightarrow> json \<Rightarrow> bool" where
  "named n c = (get_prop c ''name'' = Inr (Some (JStr (lit n))))"

text \<open>
  The link step returns: there is no link to add (the member is falsy or a string of
  white space), or the click and the typing both return.
\<close>

definition link_added :: "page_behaviour \<Rightarrow> json option \<Rightarrow> bool" where
  "link_added pg lnk =
     (case lnk of
        Some (JStr s) \<Rightarrow> trim s = [] \<or> (clickAddToPost pg = None \<and> typeLink pg s = None)
      | other \<Rightarrow> \<not> truthy other)"

text \<open>Every step of an attempt up to the click on \<^verbatim>\<open>Post\<close> returned.\<close>

definition submitted :: "page_behaviour \<Rightarrow> jstring \<Rightarrow> json option \<Rightarrow> bool" where
  "submitted pg msg lnk =
     (goto pg = None \<and> createPostPresent pg = Inr True \<and> clickCreatePost pg = None \<and>
      typeMessage pg msg = None \<and> link_added pg lnk \<and> clickPost pg = None)"

definition acquired :: "event list \<Rightarrow> bool" where
  "acquired evs = (BrowserAcquired \<in> set evs)"

definition released_before_response :: "event list \<Rightarrow> bool" where
  "released_before_response evs = (BrowserClosed \<in> set (takeWhile (\<lambda>e. e \<noteq> Responded) evs))"

definition released_after_response :: "event list \<Rightarrow> bool" where
  "released_after_response evs = (BrowserClosed \<in> set (dropWhile (\<lambda>e. e \<noteq> Responded) evs))"

definition release_discipline :: "event list \<Rightarrow> bool" where
  "release_discipline evs =
     (count_list evs Responded = 1 \<and>
      count_list evs BrowserClosed = (if acquired evs then 1 else 0) \<and>
      (acquired evs \<longrightarrow> released_after_response evs))"

definition steady_page :: page_behaviour where
  "steady_page =
     \<lparr>goto = None, createPostPresent = Inr True, clickCreatePost = None,
      typeMessage = (\<lambda>t. None), clickAddToPost = None, typeLink = (\<lambda>t. None),
      clickPost = None, createPostPresentAfter = Inr False,
      now = ''2024-01-01T00:00:00.000Z''\<rparr>"

definition steady_browser :: browser where
  "steady_browser =
     \<lparr>launch = None, newPage = None, setViewport = None, setUserAgent = None,
      setCookie = (\<lambda>cs. None), pages = (\<lambda>i. steady_page), home_goto = None,
      landmarkPresent = Inr True, profilePresent = Inr True\<rparr>"


definition expired_page :: page_behaviour where
  "expired_page = steady_page\<lparr>createPostPresent := Inr False\<rparr>"

definition unconfirmed_page :: page_behaviour where
  "unconfirmed_page = steady_page\<lparr>createPostPresentAfter := Inr True\<rparr>"

definition session_cookies :: "json list" where
  "session_cookies =
     [JObj (obj [(''name'', str ''c_user''), (''value'', str ''1000'')]),
      JObj (obj [(''name'', str ''xs''), (''value'', str ''secret'')])]"

section \<open>The loop, the clamp and an accepted run\<close>

text \<open>
  The loop ends for every bound but \<^verbatim>\<open>+Infinity\<close> and leaves one record for
  each iteration; the clamp raises, gives \<^verbatim>\<open>NaN\<close> or gives a whole number within
  its bounds, so the handler always answers. A request that passes validation, whose
  count and delay are coerced, on a browser whose page opens, is answered with the
  records of its iterations; every other request is answered with an error and
  starts no attempt.
\<close>

lemma js_lt_attempts_of:
  "cnt \<noteq> Inf True \<Longrightarrow> js_lt (Num (of_nat i)) cnt = (i < attempts_of cnt)"
proof (cases cnt)
  case (Num q)
  have "(rat_of_nat i < q) = (int i < \<lceil>q\<rceil>)"
    by (simp add: less_ceiling_iff)
  then show ?thesis using Num by (simp add: attempts_of_def zless_nat_eq_int_zless)
qed (simp_all add: attempts_of_def)

lemma attempts_loop_run:
  assumes "cnt \<noteq> Inf True"
  shows "attempts_loop pgs msg lnk cnt dly i (rs, evs) =
         Some (rs @ map (\<lambda>j. attempt_result (pgs j) msg lnk j) [i..<attempts_of cnt],
               evs @ concat (map (\<lambda>j. AttemptStarted (j + 1) # pause cnt dly j) [i..<attempts_of cnt]))"
proof (induction "attempts_of cnt - i" arbitrary: i rs evs)
  case 0
  then have "\<not> js_lt (Num (of_nat i)) cnt"
    using assms by (simp add: js_lt_attempts_of)
  then show ?case using 0 by (subst attempts_loop.simps) simp
next
  case (Suc d)
  then have lt: "i < attempts_of cnt" by simp
  have d: "d = attempts_of cnt - Suc i" using Suc.hyps(2) by simp
  have "attempts_loop pgs msg lnk cnt dly i (rs, evs) =
        attempts_loop pgs msg lnk cnt dly (Suc i) (iteration (pgs i) msg lnk cnt dly i (rs, evs))"
    using lt assms by (subst attempts_loop.simps) (simp add: js_lt_attempts_of)
  also have "\<dots> = Some (rs @ map (\<lambda>j. attempt_result (pgs j) msg lnk j) [i..<attempts_of cnt],
               evs @ concat (map (\<lambda>j. AttemptStarted (j + 1) # pause cnt dly j) [i..<attempts_of cnt]))"
    using lt by (simp add: iteration_def Suc.hyps(1)[OF d] upt_conv_Cons)
  finally show ?case .
qed

lemma parseInt_string_cases:
  "parseInt_string s = NaN \<or> (\<exists>z. parseInt_string s = Num (of_int z))"
proof -
  obtain sg s1 where a: "parse_sign (dropWhile is_ws s) = (sg, s1)"
    by (cases "parse_sign (dropWhile is_ws s)")
  obtain rd s2 where b: "parse_radix s1 = (rd, s2)" by (cases "parse_radix s1")
  show ?thesis
  proof (cases "parse_digits rd s2 None")
    case None
    then show ?thesis using a b by (simp add: parseInt_string_def)
  next
    case (Some v)
    then have "parseInt_string s = Num (of_int (sg * v))"
      using a b by (simp add: parseInt_string_def)
    then show ?thesis by blast
  qed
qed

lemma parseInt_cases:
  "(\<exists>e. parseInt x = Inl e) \<or> parseInt x = Inr NaN \<or> (\<exists>z. parseInt x = Inr (Num (of_int z)))"
  using parseInt_string_cases by (cases "ToString x") (auto simp: parseInt_def)

lemma Math_max_Num: "Math_max (Num a) (Num b) = Num (max a b)"
  by (simp add: Math_max_def max_def)

lemma Math_min_Num: "Math_min (Num a) (Num b) = Num (min a b)"
  by (cases "b < a") (simp_all add: Math_min_def min_def)

lemma clamp_Num:
  "Math_min (Math_max (Num (of_int z)) (Num (of_int lo))) (Num (of_int hi)) =
   Num (of_int (min (max z lo) hi))"
  by (simp only: Math_max_Num Math_min_Num of_int_max of_int_min)

lemma clamp_NaN: "Math_min (Math_max NaN lo) hi = NaN"
  by (simp add: Math_min_def Math_max_def)

lemma shareCount_cases:
  "(\<exists>e. shareCount x = Inl e) \<or> shareCount x = Inr NaN \<or>
   (\<exists>c. 1 \<le> c \<and> c \<le> 10 \<and> shareCount x = Inr (Num (of_nat c)))"
proof -
  consider e where "parseInt x = Inl e" | "parseInt x = Inr NaN"
    | z where "parseInt x = Inr (Num (of_int z))"
    using parseInt_cases by blast
  then show ?thesis
  proof cases
    case 1
    then show ?thesis by (simp add: shareCount_def)
  next
    case 2
    then show ?thesis by (simp add: shareCount_def clamp_NaN)
  next
    case 3
    define c where "c = nat (min (max z 1) 10)"
    have "shareCount x = Inr (Num (of_int (min (max z 1) 10)))"
      using 3 clamp_Num[of z 1 10] by (simp add: shareCount_def)
    moreover have "min (max z 1) 10 = int c"
      unfolding c_def by linarith
    ultimately have "shareCount x = Inr (Num (of_nat c))" by simp
    moreover have "1 \<le> c" "c \<le> 10" unfolding c_def by linarith+
    ultimately show ?thesis by blast
  qed
qed

lemma shareCount_finite: "shareCount x \<noteq> Inr (Inf True)"
  using shareCount_cases[of x] by auto

lemma count_of_cases:
  "(\<exists>e. count_of b = Inl e) \<or> count_of b = Inr NaN \<or>
   (\<exists>c. 1 \<le> c \<and> c \<le> 10 \<and> count_of b = Inr (Num (of_nat c)))"
  unfolding count_of_def by (rule shareCount_cases)

lemma attempts_of_nat [simp]: "attempts_of (Num (of_nat c)) = c"
  by (simp add: attempts_of_def)

lemma attempts_of_NaN [simp]: "attempts_of NaN = 0"
  by (simp add: attempts_of_def)

lemma isArray_truthy: "isArray x \<Longrightarrow> truthy x"
  by (cases x rule: isArray.cases) simp_all

lemma share_try_accepted:
  assumes "run_starts env b"
  shows "share_try env b =
         Some (Inr \<lparr>status = 200,
                    payload = Shared (records_of env b)
                      (summary_of (records_of env b) (value_or_NaN (count_of b)))\<rparr>,
               True, [LaunchCalled, BrowserAcquired] @ events_of b)"
proof -
  have arr: "isArray (field b ''appstate'')" and tr: "truthy (field b ''appstate'')"
    and msg: "message_blank (field b ''message'') = Inr False"
    using assms by (simp_all add: run_starts_def valid_share_request_def isArray_truthy)
  have l: "launch env = None" and o: "open_page env (elements (field b ''appstate'')) = None"
    using assms by (simp_all add: run_starts_def session_opens_def)
  obtain cnt where c: "count_of b = Inr cnt"
    using assms by (auto simp: run_starts_def returned_def split: sum.splits)
  obtain dly where d: "delay_of b = Inr dly"
    using assms by (auto simp: run_starts_def returned_def split: sum.splits)
  have fin: "cnt \<noteq> Inf True" using c shareCount_finite by (metis count_of_def)
  show ?thesis
    unfolding share_try_def Let_def count_of_def[symmetric] delay_of_def[symmetric]
    by (simp add: arr tr msg l o c d attempts_loop_run[OF fin, of _ _ _ _ 0 "[]" "[]", simplified]
          records_of_def events_of_def run_records_def run_events_def value_or_NaN_def)
qed

lemma share_accepted:
  assumes "run_starts env b"
  shows "share env b =
         Some (\<lparr>status = 200,
                payload = Shared (records_of env b)
                  (summary_of (records_of env b) (value_or_NaN (count_of b)))\<rparr>,
               [LaunchCalled, BrowserAcquired] @ events_of b @ [Responded, BrowserClosed])"
  by (simp add: share_def share_try_accepted[OF assms] finish_def)

lemma share_try_rejected:
  assumes "\<not> run_starts env b"
  shows "\<exists>out bs evs. share_try env b = Some (out, bs, evs) \<and>
           (evs = [] \<and> \<not> bs \<or> evs = [LaunchCalled] \<and> \<not> bs \<or>
            evs = [LaunchCalled, BrowserAcquired] \<and> bs) \<and>
           (\<forall>r. out = Inr r \<longrightarrow> status r = 400 \<and> (\<exists>e. payload r = ErrorBody e))"
proof -
  consider "\<not> isArray (field b ''appstate'')"
    | "isArray (field b ''appstate'')" "message_blank (field b ''message'') \<noteq> Inr False"
    | "isArray (field b ''appstate'')" "message_blank (field b ''message'') = Inr False"
      "\<not> returned (count_of b)"
    | "isArray (field b ''appstate'')" "message_blank (field b ''message'') = Inr False"
      "returned (count_of b)" "\<not> returned (delay_of b)"
    | "isArray (field b ''appstate'')" "message_blank (field b ''message'') = Inr False"
      "returned (count_of b)" "returned (delay_of b)" "\<not> session_opens env b"
    using assms by (auto simp: run_starts_def valid_share_request_def)
  then show ?thesis
  proof cases
    case 1
    then show ?thesis by (auto simp: share_try_def)
  next
    case 2
    then show ?thesis
      by (cases "message_blank (field b ''message'')")
         (auto simp: share_try_def isArray_truthy)
  next
    case 3
    then show ?thesis
      unfolding share_try_def Let_def count_of_def[symmetric] delay_of_def[symmetric]
      by (auto simp: isArray_truthy returned_def split: sum.splits)
  next
    case 4
    then show ?thesis
      unfolding share_try_def Let_def count_of_def[symmetric] delay_of_def[symmetric]
      by (auto simp: isArray_truthy returned_def split: sum.splits)
  next
    case 5
    then show ?thesis
      unfolding share_try_def Let_def count_of_def[symmetric] delay_of_def[symmetric]
      by (auto simp: isArray_truthy returned_def session_opens_def
          split: sum.splits option.splits)
  qed
qed

lemma share_rejected:
  assumes "\<not> run_starts env b"
  shows "\<exists>st e evs. share env b = Some (\<lparr>status = st, payload = ErrorBody e\<rparr>, evs) \<and>
           (st = 400 \<or> st = 500) \<and>
           (evs = [Responded] \<or> evs = [LaunchCalled, Responded] \<or>
            evs = [LaunchCalled, BrowserAcquired, Responded, BrowserClosed])"
proof -
  obtain out bs evs where t: "share_try env b = Some (out, bs, evs)"
    and shape: "evs = [] \<and> \<not> bs \<or> evs = [LaunchCalled] \<and> \<not> bs \<or>
                evs = [LaunchCalled, BrowserAcquired] \<and> bs"
    and ok: "\<And>r. out = Inr r \<Longrightarrow> status r = 400 \<and> (\<exists>e. payload r = ErrorBody e)"
    using share_try_rejected[OF assms] by blast
  show ?thesis
  proof (cases out)
    case (Inl e)
    then show ?thesis using t shape by (auto simp: share_def finish_def)
  next
    case (Inr r)
    then obtain e where "status r = 400" "payload r = ErrorBody e" using ok by blast
    then have "r = \<lparr>status = 400, payload = ErrorBody e\<rparr>" by (cases r) simp
    then show ?thesis using Inr t shape by (auto simp: share_def finish_def)
  qed
qed

lemma share_returns: "\<exists>out. share env b = Some out"
  using share_accepted[of env b] share_rejected[of env b] by (cases "run_starts env b") auto

lemma share_Shared_inv:
  assumes "share env b = Some (r, evs)" and "payload r = Shared rs sm"
  shows "run_starts env b"
  using assms share_rejected[of env b] by (cases "run_starts env b") auto

lemma AttemptStarted_in_run_events:
  "(AttemptStarted i \<in> set (run_events cnt dly n)) = (0 < i \<and> i \<le> n)"
proof -
  have "(AttemptStarted i \<in> set (run_events cnt dly n)) = (\<exists>j<n. i = j + 1)"
    by (auto simp: run_events_def pause_def)
  also have "\<dots> = (0 < i \<and> i \<le> n)" by (cases i) auto
  finally show ?thesis .
qed

lemma started_run:
  assumes "share env b = Some (r, evs)" and "AttemptStarted (i + 1) \<in> set evs"
  shows "run_starts env b \<and> i < attempts_of (value_or_NaN (count_of b))"
proof (cases "run_starts env b")
  case True
  then show ?thesis
    using assms share_accepted[OF True]
    by (auto simp: events_of_def AttemptStarted_in_run_events)
next
  case False
  then show ?thesis using assms share_rejected[OF False] by auto
qed

lemma attempts_count:
  assumes "i < attempts_of (value_or_NaN (count_of b))"
  shows "\<exists>c. count_of b = Inr (Num (of_nat c)) \<and> i < c"
  using assms count_of_cases[of b] by (auto simp: value_or_NaN_def)

lemma length_records_of:
  "length (records_of env b) = attempts_of (value_or_NaN (count_of b))"
  by (simp add: records_of_def run_records_def)

lemma nth_records_of:
  "i < attempts_of (value_or_NaN (count_of b)) \<Longrightarrow>
   records_of env b ! i =
   attempt_result (pages env i) (text_of (field b ''message'')) (field b ''link'') i"
  by (simp add: records_of_def run_records_def)

lemma attempt_attempt_result: "attempt (attempt_result pg msg lnk i) = i + 1"
  by (auto simp: attempt_result_def failure_record_def attempt_try_def andThen_def Let_def
      split: sum.splits option.splits if_splits)

lemma ordinals_records_of:
  "map attempt (records_of env b) = [1..<Suc (attempts_of (value_or_NaN (count_of b)))]"
proof -
  have "map attempt (records_of env b) = map Suc [0..<attempts_of (value_or_NaN (count_of b))]"
    by (simp add: records_of_def run_records_def attempt_attempt_result)
  also have "\<dots> = [1..<Suc (attempts_of (value_or_NaN (count_of b)))]"
    by (simp add: map_Suc_upt)
  finally show ?thesis .
qed

lemma link_steps_None: "(link_steps pg lnk = None) = link_added pg lnk"
proof (cases lnk)
  case None
  then show ?thesis by (simp add: link_steps_def link_added_def)
next
  case (Some v)
  then show ?thesis
    by (cases v) (auto simp: link_steps_def link_added_def before_def trim_def split: option.splits)
qed

lemma attempt_try_raised:
  "attempt_try pg msg lnk i = Inl e \<Longrightarrow>
   attempt_result pg msg lnk i =
   \<lparr>attempt = i + 1, success = False, message = None, error = Some e, timestamp = now pg\<rparr>"
  by (simp add: attempt_result_def failure_record_def)


lemma attempt_try_expired:
  "goto pg = None \<Longrightarrow> createPostPresent pg = Inr False \<Longrightarrow>
   attempt_try pg msg lnk i = Inl ''Session expired during automation''"
  by (simp add: attempt_try_def andThen_def)

lemma attempt_try_unconfirmed:
  "submitted pg msg lnk \<Longrightarrow> createPostPresentAfter pg = Inr True \<Longrightarrow>
   attempt_try pg msg lnk i = Inl ''Post may not have been published''"
  by (simp add: attempt_try_def andThen_def submitted_def link_steps_None[symmetric])

lemma attempt_try_published:
  "submitted pg msg lnk \<Longrightarrow> createPostPresentAfter pg = Inr False \<Longrightarrow>
   attempt_result pg msg lnk i =
   \<lparr>attempt = i + 1, success = True,
    message = Some (''Successfully shared post '' @ digits (i + 1)),
    error = None, timestamp = now pg\<rparr>"
  by (simp add: attempt_result_def attempt_try_def andThen_def submitted_def
      link_steps_None[symmetric])

lemma attempt_result_success_iff:
  "success (attempt_result pg msg lnk i) =
   (submitted pg msg lnk \<and> createPostPresentAfter pg = Inr False)"
  by (auto simp: attempt_result_def attempt_try_def andThen_def failure_record_def submitted_def
      link_steps_None[symmetric] split: sum.splits option.splits)


lemma summary_fields:
  "total (summary_of rs cnt) = cnt"
  "successful (summary_of rs cnt) = length (filter success rs)"
  "failed (summary_of rs cnt) = length (filter (\<lambda>r. \<not> success r) rs)"
  "successRate (summary_of rs cnt) =
     Math_round (js_mul (js_div (Num (of_nat (successful (summary_of rs cnt))))
                                (total (summary_of rs cnt))) (Num 100))"
  by (simp_all add: summary_of_def Let_def successRate_of_def)

lemma summary_counts:
  "successful (summary_of rs cnt) + failed (summary_of rs cnt) = length rs"
  using sum_length_filter_compl[of success rs] by (simp add: summary_fields)


lemma count_of_NaN:
  "field b ''count'' = Some v \<Longrightarrow> parseInt v = Inr NaN \<Longrightarrow> count_of b = Inr NaN"
  by (simp add: count_of_def with_default_def shareCount_def clamp_NaN)

lemma run_events_kinds:
  "e \<in> set (run_events cnt dly n) \<Longrightarrow> (\<exists>i. e = AttemptStarted i) \<or> (\<exists>d. e = Delayed d)"
  by (auto simp: run_events_def pause_def split: if_splits)

lemma run_events_free:
  "Responded \<notin> set (run_events cnt dly n)"
  "BrowserClosed \<notin> set (run_events cnt dly n)"
  "BrowserAcquired \<notin> set (run_events cnt dly n)"
  using run_events_kinds[of _ cnt dly n] by blast+

lemma run_events_0: "run_events cnt dly 0 = []"
  by (simp add: run_events_def)

lemma discipline_acquired:
  "release_discipline
     ([LaunchCalled, BrowserAcquired] @ run_events cnt dly n @ [Responded, BrowserClosed])"
proof -
  let ?evs = "[LaunchCalled, BrowserAcquired] @ run_events cnt dly n @ [Responded, BrowserClosed]"
  have c: "count_list (run_events cnt dly n) Responded = 0"
          "count_list (run_events cnt dly n) BrowserClosed = 0"
    using run_events_free[of cnt dly n] by (simp_all add: count_list_0_iff)
  have "dropWhile (\<lambda>e. e \<noteq> Responded) (run_events cnt dly n @ [Responded, BrowserClosed]) =
        [Responded, BrowserClosed]"
    using run_events_free(1)[of cnt dly n] by (auto simp: dropWhile_append3)
  then have "released_after_response ?evs"
    by (simp add: released_after_response_def)
  then show ?thesis
    by (simp add: release_discipline_def acquired_def c)
qed

lemma discipline_short:
  "release_discipline [Responded]"
  "release_discipline [LaunchCalled, Responded]"
  "release_discipline [LaunchCalled, BrowserAcquired, Responded, BrowserClosed]"
  by (simp_all add: release_discipline_def acquired_def released_after_response_def)

lemma share_discipline: "\<exists>r evs. share env b = Some (r, evs) \<and> release_discipline evs"
proof (cases "run_starts env b")
  case True
  then show ?thesis
    using share_accepted[OF True] discipline_acquired by (simp add: events_of_def)
next
  case False
  then show ?thesis using share_rejected[OF False] discipline_short by auto
qed

lemma validate_try_shape:
  "\<exists>out bs evs. validate_try env b = (out, bs, evs) \<and>
     (if bs then evs = [LaunchCalled, BrowserAcquired] else evs = [] \<or> evs = [LaunchCalled])"
  unfolding validate_try_def Let_def
  by (auto split: sum.splits option.splits)

lemma validate_discipline: "release_discipline (snd (validate env b))"
proof -
  obtain out bs evs where t: "validate_try env b = (out, bs, evs)"
    and shape: "if bs then evs = [LaunchCalled, BrowserAcquired] else evs = [] \<or> evs = [LaunchCalled]"
    using validate_try_shape by blast
  have "release_discipline (evs @ [Responded] @ (if bs then [BrowserClosed] else []))"
    using shape discipline_short by (cases bs) auto
  then show ?thesis using t by (simp add: validate_def finish_def)
qed

lemma get_prop_not_null: "c \<noteq> JNull \<Longrightarrow> \<exists>v. get_prop c k = Inr v"
  by (cases c) simp_all

lemma get_prop_raises: "get_prop c k = Inl e \<Longrightarrow> c = JNull"
  by (cases c) simp_all

lemma find_named_raises: "find_named n cs = Inl e \<Longrightarrow> JNull \<in> set cs"
  by (induction cs) (auto split: sum.splits if_splits dest: get_prop_raises)

lemma find_named_absent:
  "\<forall>c\<in>set cs. \<not> named n c \<Longrightarrow>
   find_named n cs = Inr None \<or> (JNull \<in> set cs \<and> (\<exists>e. find_named n cs = Inl e))"
proof (induction cs)
  case Nil
  then show ?case by simp
next
  case (Cons c cs)
  show ?case
  proof (cases "c = JNull")
    case True
    then show ?thesis by simp
  next
    case False
    then obtain v where v: "get_prop c ''name'' = Inr v"
      using get_prop_not_null by blast
    have "v \<noteq> Some (JStr (lit n))" using Cons.prems v by (simp add: named_def)
    then show ?thesis using v Cons by auto
  qed
qed

lemma validate_lookup_raises:
  assumes "field b ''appstate'' = Some (JArr cs)"
    and "find_named ''c_user'' cs = Inl e \<or>
         (\<exists>u. find_named ''c_user'' cs = Inr u) \<and> find_named ''xs'' cs = Inl e"
  shows "validate env b =
         (\<lparr>status = 500, payload = ErrorBody (''Validation failed: '' @ e)\<rparr>, [Responded])"
  using assms by (auto simp: validate_def validate_try_def finish_def)

lemma validate_lookup_missing:
  assumes "field b ''appstate'' = Some (JArr cs)"
    and "find_named ''c_user'' cs = Inr u" and "find_named ''xs'' cs = Inr x"
    and "\<not> truthy u \<or> \<not> truthy x"
  shows "validate env b =
         (\<lparr>status = 400, payload = ErrorBody ''Missing required cookies: c_user or xs''\<rparr>,
          [Responded])"
  using assms by (auto simp: validate_def validate_try_def finish_def)

lemma missing_cookie_no_browser:
  assumes "field b ''appstate'' = Some (JArr cs)"
    and "(\<forall>c\<in>set cs. \<not> named ''c_user'' c) \<or> (\<forall>c\<in>set cs. \<not> named ''xs'' c)"
  shows "\<exists>st e. validate env b = (\<lparr>status = st, payload = ErrorBody e\<rparr>, [Responded]) \<and>
           (st = 400 \<or> st = 500)"
proof (cases "find_named ''c_user'' cs")
  case (Inl e)
  then show ?thesis using validate_lookup_raises[OF assms(1), of e env] by simp
next
  case u: (Inr u)
  show ?thesis
  proof (cases "find_named ''xs'' cs")
    case (Inl e)
    then show ?thesis using u validate_lookup_raises[OF assms(1), of e env] by simp
  next
    case x: (Inr x)
    have "u = None \<or> x = None"
      using assms(2) find_named_absent[of cs "''c_user''"] find_named_absent[of cs "''xs''"] u x
      by auto
    then have "\<not> truthy u \<or> \<not> truthy x" by auto
    then show ?thesis using validate_lookup_missing[OF assms(1) u x, of env] by simp
  qed
qed

lemma missing_cookie_400:
  assumes "field b ''appstate'' = Some (JArr cs)" and "JNull \<notin> set cs"
    and "(\<forall>c\<in>set cs. \<not> named ''c_user'' c) \<or> (\<forall>c\<in>set cs. \<not> named ''xs'' c)"
  shows "validate env b =
         (\<lparr>status = 400, payload = ErrorBody ''Missing required cookies: c_user or xs''\<rparr>,
          [Responded])"
proof -
  obtain u where u: "find_named ''c_user'' cs = Inr u"
    using find_named_raises[of "''c_user''" cs] assms(2) by (cases "find_named ''c_user'' cs") auto
  obtain x where x: "find_named ''xs'' cs = Inr x"
    using find_named_raises[of "''xs''" cs] assms(2) by (cases "find_named ''xs'' cs") auto
  have "u = None \<or> x = None"
    using assms(3) find_named_absent[of cs "''c_user''"] find_named_absent[of cs "''xs''"] u x
    by auto
  then have "\<not> truthy u \<or> \<not> truthy x" by auto
  then show ?thesis by (rule validate_lookup_missing[OF assms(1) u x])
qed

lemma clamp_examples:
  "shareCount (whole 15) = Inr (Num 10)" "shareDelay (whole 2) = Inr (Num 5)"
  "shareDelay (whole 90) = Inr (Num 60)" "shareCount (str ''15'') = Inr (Num 10)"
  "shareCount (whole 0) = Inr (Num 1)" "shareCount (JNum 1 21) = Inr (Num 1)"
  "shareCount (JNum 25 (- 1)) = Inr (Num 2)"
  by code_simp+

lemma shareCount_range:
  assumes "parseInt v = Inr (Num (of_int z))"
  shows "shareCount v = Inr (Num (of_int (min (max z 1) 10)))"
  using assms clamp_Num[of z 1 10] by (simp add: shareCount_def)

lemma shareDelay_range:
  assumes "parseInt v = Inr (Num (of_int z))"
  shows "shareDelay v = Inr (Num (of_int (min (max z 5) 60)))"
  using assms clamp_Num[of z 5 60] by (simp add: shareDelay_def)

lemma summary_when_count_parses:
  assumes "run_starts env b" and "count_of b = Inr (Num (of_nat c))"
  shows "\<exists>rs sm evs. share env b = Some (\<lparr>status = 200, payload = Shared rs sm\<rparr>, evs) \<and>
           total sm = Num (of_nat c) \<and> successful sm + failed sm = c \<and>
           successRate sm =
             Math_round (js_mul (js_div (Num (of_nat (successful sm))) (total sm)) (Num 100))"
proof -
  have "length (records_of env b) = c"
    using assms(2) by (simp add: length_records_of value_or_NaN_def)
  then show ?thesis
    using share_accepted[OF assms(1)] assms(2)
      summary_counts[of "records_of env b" "Num (of_nat c)"]
      summary_fields(1,4)[of "records_of env b" "Num (of_nat c)"]
    by (simp add: value_or_NaN_def)
qed

text \<open>
  Inputs on which the coercions leave the common path: a no-break space is skipped by
  \<^verbatim>\<open>parseInt\<close> and stripped by \<^verbatim>\<open>trim\<close>, a number from \<^verbatim>\<open>1e21\<close> on is
  printed in exponent form, and an object with an own member \<^verbatim>\<open>toString\<close> makes
  \<^verbatim>\<open>parseInt\<close> raise, which the handler answers with status 500 before a browser
  is launched.
\<close>

lemma coercion_examples:
  "parseInt (JStr (0xA0 # lit ''3'')) = Inr (Num 3)"
  "parseInt (JNum 1 21) = Inr (Num 1)"
  "parseInt (JNum 1 20) = Inr (Num 100000000000000000000)"
  "parseInt (JNum (- 5) (- 1)) = Inr (Num 0)"
  "parseInt (JNum 12345678901234567 (- 3)) = Inr (Num 12345678901234)"
  "parseInt (JInfinity False) = Inr NaN"
  "parseInt (JArr [whole 7, whole 8]) = Inr (Num 7)"
  "parseInt (JObj (obj [(''toString'', whole 1)])) =
     Inl ''Cannot convert object to primitive value''"
  "share steady_browser
     (obj [(''appstate'', JArr []), (''message'', str ''hi''),
           (''delay'', JObj (obj [(''toString'', whole 1)]))]) =
   Some (\<lparr>status = 500,
          payload = ErrorBody ''Sharing failed: Cannot convert object to primitive value''\<rparr>,
         [Responded])"
  "share steady_browser (obj [(''appstate'', JArr []), (''message'', JStr [0xA0])]) =
   Some (\<lparr>status = 400, payload = ErrorBody ''Message is required''\<rparr>, [Responded])"
  by code_simp+

section \<open>Properties of the handlers\<close>

text \<open>
  C1. The claim is that the summary of every run has \<open>successful + failed = total\<close>
  and \<open>successRate = round (successful / total * 100)\<close>. The run below is a request
  whose \<^verbatim>\<open>count\<close> is the string \<^verbatim>\<open>ten\<close>: \<^verbatim>\<open>parseInt\<close> gives \<^verbatim>\<open>NaN\<close>,
  the clamp keeps it, and the summary returned has \<open>total = NaN\<close> with
  \<open>successful = 0\<close> and \<open>failed = 0\<close>, so the sum is not the total. For a count that
  parses, the equations hold (\<open>summary_when_count_parses\<close>).
\<close>

theorem summary_of_unparsable_count:
  "share steady_browser
     (obj [(''appstate'', JArr session_cookies), (''message'', str ''hi''),
           (''count'', str ''ten'')]) =
   Some (\<lparr>status = 200,
          payload = Shared [] \<lparr>total = NaN, successful = 0, failed = 0, successRate = NaN\<rparr>\<rparr>,
         [LaunchCalled, BrowserAcquired, Responded, BrowserClosed])"
proof -
  let ?b = "obj [(''appstate'', JArr session_cookies), (''message'', str ''hi''),
                 (''count'', str ''ten'')]"
  have s: "run_starts steady_browser ?b" by code_simp
  have c: "value_or_NaN (count_of ?b) = NaN" by code_simp
  have r: "records_of steady_browser ?b = []" by code_simp
  have e: "events_of ?b = []" by code_simp
  have m: "summary_of [] NaN = \<lparr>total = NaN, successful = 0, failed = 0, successRate = NaN\<rparr>"
    by code_simp
  show ?thesis using share_accepted[OF s] unfolding r c e m by simp
qed

text \<open>
  C2. Whenever \<^verbatim>\<open>/api/share\<close> answers with a results array and the clamped attempt
  count of the request is the number \<open>c\<close>, the array has exactly \<open>c\<close> records and
  their ordinals are \<open>1, \<dots>, c\<close> in this order. The handler always answers.
\<close>

theorem results_ordinals:
  assumes "count_of b = Inr (Num (of_nat c))"
  shows "(\<exists>out. share env b = Some out) \<and>
         (\<forall>r evs rs sm. share env b = Some (r, evs) \<and> payload r = Shared rs sm \<longrightarrow>
            length rs = c \<and> map attempt rs = [1..<Suc c])"
proof (intro conjI allI impI)
  show "\<exists>out. share env b = Some out" by (rule share_returns)
next
  fix r evs rs sm
  assume h: "share env b = Some (r, evs) \<and> payload r = Shared rs sm"
  then have "run_starts env b"
    using share_Shared_inv by blast
  from share_accepted[OF this] h have rs: "rs = records_of env b" by auto
  have n: "attempts_of (value_or_NaN (count_of b)) = c"
    using assms by (simp add: value_or_NaN_def)
  show "length rs = c" by (simp add: rs length_records_of n)
  show "map attempt rs = [1..<Suc c]" by (simp add: rs ordinals_records_of n)
qed

theorem results_ordinals_witness:
  "count_of (obj [(''appstate'', JArr []), (''message'', str ''hi''), (''count'', whole 3)])
     = Inr (Num (of_nat 3)) \<and>
   (\<exists>r evs rs sm.
      share steady_browser
        (obj [(''appstate'', JArr []), (''message'', str ''hi''), (''count'', whole 3)])
        = Some (r, evs) \<and>
      payload r = Shared rs sm \<and> length rs = 3 \<and> map attempt rs = [1, 2, 3])"
proof -
  let ?b = "obj [(''appstate'', JArr []), (''message'', str ''hi''), (''count'', whole 3)]"
  have "count_of ?b = Inr (Num 3)" by code_simp
  then have c: "count_of ?b = Inr (Num (of_nat 3))" by simp
  have s: "run_starts steady_browser ?b" by code_simp
  obtain r evs where run: "share steady_browser ?b = Some (r, evs)"
    and p: "payload r = Shared (records_of steady_browser ?b)
              (summary_of (records_of steady_browser ?b) (value_or_NaN (count_of ?b)))"
    using share_accepted[OF s] by simp
  have "length (records_of steady_browser ?b) = 3 \<and>
        map attempt (records_of steady_browser ?b) = [1..<Suc 3]"
    using results_ordinals[OF c, of steady_browser] run p by blast
  moreover have "[1..<Suc 3] = [1, 2, 3]" by code_simp
  ultimately show ?thesis using c run p by auto
qed



text \<open>
  C4. The claim is that every request to \<^verbatim>\<open>/api/validate\<close> whose cookie array
  lacks an entry named \<^verbatim>\<open>c_user\<close> or one named \<^verbatim>\<open>xs\<close> is answered with status
  400 before a browser is acquired. The request below has the cookie \<^verbatim>\<open>c_user\<close>
  followed by \<^verbatim>\<open>null\<close>, so no entry is named \<^verbatim>\<open>xs\<close>: the look-up for
  \<^verbatim>\<open>xs\<close> reads \<^verbatim>\<open>c.name\<close> of \<^verbatim>\<open>null\<close>, which raises, and the handler
  answers with status 500. The response is the only event, so no browser is acquired.
  For every array that lacks one of the two entries no browser is acquired
  (\<open>missing_cookie_no_browser\<close>), and the status is 400 when no element is
  \<^verbatim>\<open>null\<close> (\<open>missing_cookie_400\<close>).
\<close>

theorem null_cookie_answered_500:
  "\<not> named ''xs'' (JObj (obj [(''name'', str ''c_user''), (''value'', str ''1000'')])) \<and>
   \<not> named ''xs'' JNull \<and>
   validate steady_browser
     (obj [(''appstate'',
            JArr [JObj (obj [(''name'', str ''c_user''), (''value'', str ''1000'')]), JNull])]) =
   (\<lparr>status = 500,
     payload = ErrorBody
       (''Validation failed: Cannot read properties of null (reading '' @ [CHR 0x27] @
        ''name'' @ [CHR 0x27] @ '')'')\<rparr>,
    [Responded])"
  by code_simp

text \<open>
  C5. The claim is that every request has its count clamped to \<open>[1, 10]\<close> and its
  delay to \<open>[5, 60]\<close> before an attempt runs. An input that \<^verbatim>\<open>parseInt\<close> cannot
  read leaves \<^verbatim>\<open>NaN\<close> in both expressions; in the run below two attempts are made
  and the delay between them is \<^verbatim>\<open>NaN\<close> milliseconds. The examples of the claim
  hold (\<open>clamp_examples\<close>), and so does the range for every input that parses
  (\<open>shareCount_range\<close>, \<open>shareDelay_range\<close>).
\<close>

theorem delay_of_unparsable_input:
  "shareCount (str '''') = Inr NaN \<and> shareDelay (str ''soon'') = Inr NaN \<and>
   map_option snd
     (share steady_browser
        (obj [(''appstate'', JArr session_cookies), (''message'', str ''hi''),
              (''count'', whole 2), (''delay'', str ''soon'')])) =
   Some [LaunchCalled, BrowserAcquired, AttemptStarted 1, Delayed NaN, AttemptStarted 2,
         Responded, BrowserClosed]"
proof -
  let ?b = "obj [(''appstate'', JArr session_cookies), (''message'', str ''hi''),
                 (''count'', whole 2), (''delay'', str ''soon'')]"
  have s: "run_starts steady_browser ?b" by code_simp
  have e: "events_of ?b = [AttemptStarted 1, Delayed NaN, AttemptStarted 2]"
    by code_simp
  have "shareCount (str '''') = Inr NaN" "shareDelay (str ''soon'') = Inr NaN" by code_simp+
  then show ?thesis using share_accepted[OF s] unfolding e by simp
qed

text \<open>
  C6. Whenever attempt \<open>k + 1\<close> of a run was started, the page loaded and the element
  \<^verbatim>\<open>[aria-label="Create a post"]\<close> was missing, the handler answers with status 200
  and a log in which record \<open>k\<close> is the failure
  \<^verbatim>\<open>{attempt: k + 1, success: false, error: "Session expired during automation",
  timestamp}\<close>, and every later attempt up to the clamped count \<open>c\<close> is started and has
  its record in the log: that record has the attempt's ordinal and reports success
  exactly when the steps of its own iteration worked.
\<close>

theorem session_expiry_fails_one_attempt:
  assumes "share env b = Some (r, evs)" and "AttemptStarted (k + 1) \<in> set evs"
    and "goto (pages env k) = None" and "createPostPresent (pages env k) = Inr False"
  shows "\<exists>rs sm c.
           r = \<lparr>status = 200, payload = Shared rs sm\<rparr> \<and>
           count_of b = Inr (Num (of_nat c)) \<and> k < c \<and> length rs = c \<and>
           rs ! k = \<lparr>attempt = k + 1, success = False, message = None,
                     error = Some ''Session expired during automation'',
                     timestamp = now (pages env k)\<rparr> \<and>
           (\<forall>j. k < j \<and> j < c \<longrightarrow>
              AttemptStarted (j + 1) \<in> set evs \<and>
              attempt (rs ! j) = j + 1 \<and>
              success (rs ! j) =
                (submitted (pages env j) (text_of (field b ''message'')) (field b ''link'') \<and>
                 createPostPresentAfter (pages env j) = Inr False))"
proof -
  let ?msg = "text_of (field b ''message'')" and ?lnk = "field b ''link''"
  have s: "run_starts env b" and k: "k < attempts_of (value_or_NaN (count_of b))"
    using started_run[OF assms(1,2)] by simp_all
  obtain c where c: "count_of b = Inr (Num (of_nat c))" and kc: "k < c"
    using attempts_count[OF k] by blast
  have v: "value_or_NaN (count_of b) = Num (of_nat c)" by (simp add: c value_or_NaN_def)
  let ?rs = "records_of env b" and ?sm = "summary_of (records_of env b) (Num (of_nat c))"
  have run: "share env b =
      Some (\<lparr>status = 200, payload = Shared ?rs ?sm\<rparr>,
            [LaunchCalled, BrowserAcquired] @ events_of b @ [Responded, BrowserClosed])"
    using share_accepted[OF s] by (simp add: v)
  then have r: "r = \<lparr>status = 200, payload = Shared ?rs ?sm\<rparr>"
    and evs: "evs = [LaunchCalled, BrowserAcquired] @ events_of b @ [Responded, BrowserClosed]"
    using assms(1) by simp_all
  have len: "length ?rs = c" by (simp add: length_records_of v)
  have nth: "?rs ! j = attempt_result (pages env j) ?msg ?lnk j" if "j < c" for j
    using that by (simp add: nth_records_of v)
  have rk: "?rs ! k = \<lparr>attempt = k + 1, success = False, message = None,
                        error = Some ''Session expired during automation'',
                        timestamp = now (pages env k)\<rparr>"
    using nth[OF kc] attempt_try_raised[OF attempt_try_expired[OF assms(3,4)]] by simp
  have later: "AttemptStarted (j + 1) \<in> set evs \<and> attempt (?rs ! j) = j + 1 \<and>
               success (?rs ! j) =
                 (submitted (pages env j) ?msg ?lnk \<and> createPostPresentAfter (pages env j) = Inr False)"
    if "k < j \<and> j < c" for j
    using that nth[of j]
    by (simp add: evs events_of_def AttemptStarted_in_run_events v attempt_attempt_result
        attempt_result_success_iff)
  show ?thesis using r c kc len rk later by blast
qed

theorem session_expiry_fails_one_attempt_witness:
  "\<exists>r evs.
     share (steady_browser\<lparr>pages := \<lambda>i. if i = 1 then expired_page else steady_page\<rparr>)
       (obj [(''appstate'', JArr []), (''message'', str ''hi''), (''count'', whole 3)]) =
       Some (r, evs) \<and>
     AttemptStarted (1 + 1) \<in> set evs \<and>
     goto expired_page = None \<and> createPostPresent expired_page = Inr False \<and>
     (\<exists>rs sm.
        r = \<lparr>status = 200, payload = Shared rs sm\<rparr> \<and> length rs = 3 \<and>
        rs ! 1 = \<lparr>attempt = 2, success = False, message = None,
                  error = Some ''Session expired during automation'',
                  timestamp = ''2024-01-01T00:00:00.000Z''\<rparr> \<and>
        AttemptStarted 3 \<in> set evs \<and> attempt (rs ! 2) = 3 \<and> success (rs ! 2))"
proof -
  let ?b = "obj [(''appstate'', JArr []), (''message'', str ''hi''), (''count'', whole 3)]"
  let ?env = "steady_browser\<lparr>pages := \<lambda>i. if i = 1 then expired_page else steady_page\<rparr>"
  have s: "run_starts ?env ?b" by code_simp
  have ev: "events_of ?b =
      [AttemptStarted 1, Delayed (Num 15000), AttemptStarted 2, Delayed (Num 15000),
       AttemptStarted 3]"
    by code_simp
  obtain r evs where run: "share ?env ?b = Some (r, evs)"
    and evs: "evs = [LaunchCalled, BrowserAcquired, AttemptStarted 1, Delayed (Num 15000),
                     AttemptStarted 2, Delayed (Num 15000), AttemptStarted 3,
                     Responded, BrowserClosed]"
    using share_accepted[OF s] unfolding ev by simp
  have st: "AttemptStarted (1 + 1) \<in> set evs" by (simp add: evs)
  have p1: "pages ?env 1 = expired_page" by simp
  have g: "goto (pages ?env 1) = None" by code_simp
  have e: "createPostPresent (pages ?env 1) = Inr False" by code_simp
  have g': "goto expired_page = None" and e': "createPostPresent expired_page = Inr False"
    by code_simp+
  have n: "now (pages ?env 1) = ''2024-01-01T00:00:00.000Z''" by code_simp
  have s2: "submitted (pages ?env 2) (text_of (field ?b ''message'')) (field ?b ''link'') \<and>
            createPostPresentAfter (pages ?env 2) = Inr False"
    by code_simp
  have "count_of ?b = Inr (Num 3)" by code_simp
  then have cnt: "count_of ?b = Inr (Num (of_nat 3))" by simp
  obtain rs sm c where r: "r = \<lparr>status = 200, payload = Shared rs sm\<rparr>"
    and c: "count_of ?b = Inr (Num (of_nat c))" and len: "length rs = c"
    and rk: "rs ! 1 = \<lparr>attempt = 1 + 1, success = False, message = None,
                        error = Some ''Session expired during automation'',
                        timestamp = now (pages ?env 1)\<rparr>"
    and later: "\<And>j. 1 < j \<and> j < c \<Longrightarrow>
                  AttemptStarted (j + 1) \<in> set evs \<and> attempt (rs ! j) = j + 1 \<and>
                  success (rs ! j) =
                    (submitted (pages ?env j) (text_of (field ?b ''message'')) (field ?b ''link'') \<and>
                     createPostPresentAfter (pages ?env j) = Inr False)"
    using session_expiry_fails_one_attempt[OF run st g e] by blast
  have c3: "c = 3" using c cnt by simp
  have "AttemptStarted 3 \<in> set evs" "attempt (rs ! 2) = 3" "success (rs ! 2)"
    using later[of 2] s2 c3 by simp_all
  moreover have "rs ! 1 = \<lparr>attempt = 2, success = False, message = None,
                  error = Some ''Session expired during automation'',
                  timestamp = ''2024-01-01T00:00:00.000Z''\<rparr>"
    using rk n by simp
  ultimately show ?thesis using run st g' e' r len c3 by blast
qed

text \<open>
  C7. Whenever attempt \<open>i + 1\<close> of a run was started, its record in the log reports
  success exactly when every step up to the click on \<^verbatim>\<open>Post\<close> returned and the
  compose element is then absent, and the record is then
  \<^verbatim>\<open>{attempt: i + 1, success: true, message, timestamp}\<close>. When the steps returned
  and the element is still present, the record is the failure
  \<^verbatim>\<open>{attempt: i + 1, success: false, error: "Post may not have been published",
  timestamp}\<close>.
\<close>

theorem publication_judged_by_affordance:
  assumes "share env b = Some (r, evs)" and "AttemptStarted (i + 1) \<in> set evs"
  shows "\<exists>rs sm.
           r = \<lparr>status = 200, payload = Shared rs sm\<rparr> \<and> i < length rs \<and>
           success (rs ! i) =
             (submitted (pages env i) (text_of (field b ''message'')) (field b ''link'') \<and>
              createPostPresentAfter (pages env i) = Inr False) \<and>
           (success (rs ! i) \<longrightarrow>
              rs ! i = \<lparr>attempt = i + 1, success = True,
                        message = Some (''Successfully shared post '' @ digits (i + 1)),
                        error = None, timestamp = now (pages env i)\<rparr>) \<and>
           (submitted (pages env i) (text_of (field b ''message'')) (field b ''link'') \<and>
            createPostPresentAfter (pages env i) = Inr True \<longrightarrow>
              rs ! i = \<lparr>attempt = i + 1, success = False, message = None,
                        error = Some ''Post may not have been published'',
                        timestamp = now (pages env i)\<rparr>)"
proof -
  let ?msg = "text_of (field b ''message'')" and ?lnk = "field b ''link''"
  have s: "run_starts env b" and i: "i < attempts_of (value_or_NaN (count_of b))"
    using started_run[OF assms] by simp_all
  let ?rs = "records_of env b"
  obtain sm where r: "r = \<lparr>status = 200, payload = Shared ?rs sm\<rparr>"
    using share_accepted[OF s] assms(1) by simp
  have len: "i < length ?rs" using i by (simp add: length_records_of)
  have nth: "?rs ! i = attempt_result (pages env i) ?msg ?lnk i"
    using i by (rule nth_records_of)
  have iff: "success (?rs ! i) =
               (submitted (pages env i) ?msg ?lnk \<and> createPostPresentAfter (pages env i) = Inr False)"
    by (simp add: nth attempt_result_success_iff)
  have pub: "?rs ! i = \<lparr>attempt = i + 1, success = True,
                        message = Some (''Successfully shared post '' @ digits (i + 1)),
                        error = None, timestamp = now (pages env i)\<rparr>"
    if "success (?rs ! i)"
    using that iff attempt_try_published[of "pages env i" ?msg ?lnk i] by (simp add: nth)
  have unc: "?rs ! i = \<lparr>attempt = i + 1, success = False, message = None,
                        error = Some ''Post may not have been published'',
                        timestamp = now (pages env i)\<rparr>"
    if "submitted (pages env i) ?msg ?lnk \<and> createPostPresentAfter (pages env i) = Inr True"
    using that attempt_try_raised[OF attempt_try_unconfirmed[of "pages env i" ?msg ?lnk i]]
    by (simp add: nth)
  show ?thesis using r len iff pub unc by blast
qed

theorem publication_judged_by_affordance_witness:
  "\<exists>r evs.
     share (steady_browser\<lparr>pages := \<lambda>i. if i = 1 then unconfirmed_page else steady_page\<rparr>)
       (obj [(''appstate'', JArr []), (''message'', str ''hi''), (''count'', whole 2)]) =
       Some (r, evs) \<and>
     AttemptStarted (0 + 1) \<in> set evs \<and> AttemptStarted (1 + 1) \<in> set evs \<and>
     submitted steady_page (lit ''hi'') None \<and> createPostPresentAfter steady_page = Inr False \<and>
     submitted unconfirmed_page (lit ''hi'') None \<and>
     createPostPresentAfter unconfirmed_page = Inr True \<and>
     (\<exists>rs sm.
        r = \<lparr>status = 200, payload = Shared rs sm\<rparr> \<and>
        rs ! 0 = \<lparr>attempt = 1, success = True,
                  message = Some ''Successfully shared post 1'', error = None,
                  timestamp = ''2024-01-01T00:00:00.000Z''\<rparr> \<and>
        rs ! 1 = \<lparr>attempt = 2, success = False, message = None,
                  error = Some ''Post may not have been published'',
                  timestamp = ''2024-01-01T00:00:00.000Z''\<rparr>)"
proof -
  let ?b = "obj [(''appstate'', JArr []), (''message'', str ''hi''), (''count'', whole 2)]"
  let ?env = "steady_browser\<lparr>pages := \<lambda>i. if i = 1 then unconfirmed_page else steady_page\<rparr>"
  have s: "run_starts ?env ?b" by code_simp
  have ev: "events_of ?b = [AttemptStarted 1, Delayed (Num 15000), AttemptStarted 2]"
    by code_simp
  obtain r evs where run: "share ?env ?b = Some (r, evs)"
    and evs: "evs = [LaunchCalled, BrowserAcquired, AttemptStarted 1, Delayed (Num 15000),
                     AttemptStarted 2, Responded, BrowserClosed]"
    using share_accepted[OF s] unfolding ev by simp
  have st0: "AttemptStarted (0 + 1) \<in> set evs" and st1: "AttemptStarted (1 + 1) \<in> set evs"
    by (simp_all add: evs)
  have p: "pages ?env 0 = steady_page" "pages ?env 1 = unconfirmed_page" by simp_all
  have m: "text_of (field ?b ''message'') = lit ''hi''" "field ?b ''link'' = None"
    by code_simp+
  have sub0: "submitted steady_page (lit ''hi'') None"
    and aft0: "createPostPresentAfter steady_page = Inr False"
    and sub1: "submitted unconfirmed_page (lit ''hi'') None"
    and aft1: "createPostPresentAfter unconfirmed_page = Inr True"
    by code_simp+
  have t: "now steady_page = ''2024-01-01T00:00:00.000Z''"
    "now unconfirmed_page = ''2024-01-01T00:00:00.000Z''"
    by code_simp+
  have d: "digits (0 + 1) = ''1''" by code_simp
  obtain rs sm where r: "r = \<lparr>status = 200, payload = Shared rs sm\<rparr>"
    and ok: "success (rs ! 0) = (submitted steady_page (lit ''hi'') None \<and>
                                 createPostPresentAfter steady_page = Inr False)"
    and pub: "success (rs ! 0) \<Longrightarrow>
              rs ! 0 = \<lparr>attempt = 0 + 1, success = True,
                        message = Some (''Successfully shared post '' @ digits (0 + 1)),
                        error = None, timestamp = now steady_page\<rparr>"
    using publication_judged_by_affordance[OF run st0] unfolding p m by blast
  obtain rs' sm' where r': "r = \<lparr>status = 200, payload = Shared rs' sm'\<rparr>"
    and unc: "submitted unconfirmed_page (lit ''hi'') None \<and>
              createPostPresentAfter unconfirmed_page = Inr True \<Longrightarrow>
              rs' ! 1 = \<lparr>attempt = 1 + 1, success = False, message = None,
                         error = Some ''Post may not have been published'',
                         timestamp = now unconfirmed_page\<rparr>"
    using publication_judged_by_affordance[OF run st1] unfolding p m by blast
  have same: "rs' = rs" using r r' by simp
  have r0: "rs ! 0 = \<lparr>attempt = 1, success = True,
                  message = Some ''Successfully shared post 1'', error = None,
                  timestamp = ''2024-01-01T00:00:00.000Z''\<rparr>"
    using pub ok sub0 aft0 t d by simp
  have r1: "rs ! 1 = \<lparr>attempt = 2, success = False, message = None,
                  error = Some ''Post may not have been published'',
                  timestamp = ''2024-01-01T00:00:00.000Z''\<rparr>"
    using unc sub1 aft1 t same by simp
  show ?thesis using run st0 st1 sub0 aft0 sub1 aft1 r r0 r1 by blast
qed

text \<open>
  C8, as amended. Every request to \<^verbatim>\<open>/api/validate\<close> or \<^verbatim>\<open>/api/share\<close> sends
  exactly one response; when a browser was acquired, \<^verbatim>\<open>browser.close()\<close> is called
  exactly once, after the response was sent; when none was acquired it is not called.
  As stated, with the release before the response, the claim fails on every request
  that acquires a browser: the \<^verbatim>\<open>finally\<close> block runs after \<^verbatim>\<open>res.json\<close>.
\<close>

theorem browser_released_once_after_response:
  "release_discipline (snd (validate env b)) \<and>
   (\<exists>r evs. share env b = Some (r, evs) \<and> release_discipline evs)"
  using validate_discipline share_discipline by blast

theorem browser_released_once_after_response_witness:
  "acquired (snd (validate steady_browser (obj [(''appstate'', JArr session_cookies)]))) \<and>
   release_discipline (snd (validate steady_browser (obj [(''appstate'', JArr session_cookies)]))) \<and>
   snd (validate steady_browser (obj [(''appstate'', JArr session_cookies)])) =
     [LaunchCalled, BrowserAcquired, Responded, BrowserClosed] \<and>
   (\<exists>r evs.
      share steady_browser (obj [(''appstate'', JArr session_cookies), (''message'', str ''hi'')])
        = Some (r, evs) \<and> acquired evs \<and> release_discipline evs)"
proof -
  let ?v = "obj [(''appstate'', JArr session_cookies)]"
  let ?s = "obj [(''appstate'', JArr session_cookies), (''message'', str ''hi'')]"
  have tr: "snd (validate steady_browser ?v) = [LaunchCalled, BrowserAcquired, Responded, BrowserClosed]"
    by code_simp
  have a: "acquired (snd (validate steady_browser ?v))" unfolding tr by code_simp
  have s: "run_starts steady_browser ?s" by code_simp
  obtain r evs where run: "share steady_browser ?s = Some (r, evs)" and d: "release_discipline evs"
    using browser_released_once_after_response[of steady_browser ?s] by blast
  have "acquired evs" using share_accepted[OF s] run by (auto simp: acquired_def)
  then show ?thesis
    using browser_released_once_after_response[of steady_browser ?v] tr a run d by blast
qed

theorem browser_closed_after_response:
  "\<not> (acquired (snd (validate steady_browser (obj [(''appstate'', JArr session_cookies)]))) \<longrightarrow>
      count_list (snd (validate steady_browser (obj [(''appstate'', JArr session_cookies)])))
        BrowserClosed = 1 \<and>
      released_before_response
        (snd (validate steady_browser (obj [(''appstate'', JArr session_cookies)]))))"
proof -
  have tr: "snd (validate steady_browser (obj [(''appstate'', JArr session_cookies)])) =
            [LaunchCalled, BrowserAcquired, Responded, BrowserClosed]"
    by code_simp
  show ?thesis unfolding tr by (simp add: acquired_def released_before_response_def)
qed

text \<open>
  C9, as amended. When \<^verbatim>\<open>appstate\<close> is an array and \<^verbatim>\<open>message\<close> is missing or
  a string that trims to the empty string, \<^verbatim>\<open>/api/share\<close> answers with status 400
  and the error \<^verbatim>\<open>Message is required\<close>, and the response is the only event: no
  browser is launched and no attempt is started. As stated, for every request, the
  claim fails on the empty body: the check of \<^verbatim>\<open>appstate\<close> comes first and answers
  with another error.
\<close>

theorem blank_message_rejected:
  assumes "isArray (field b ''appstate'')"
    and "field b ''message'' = None \<or> (\<exists>s. field b ''message'' = Some (JStr s) \<and> trim s = [])"
  shows "share env b =
         Some (\<lparr>status = 400, payload = ErrorBody ''Message is required''\<rparr>, [Responded])"
proof -
  have "message_blank (field b ''message'') = Inr True"
    using assms(2) by (auto simp: message_blank_def)
  then show ?thesis
    using assms(1)
    by (simp add: share_def share_try_def finish_def isArray_truthy)
qed

theorem blank_message_rejected_witness:
  "isArray (field (obj [(''appstate'', JArr []), (''message'', JStr [0xA0, 0x20, 0x3000])])
              ''appstate'') \<and>
   field (obj [(''appstate'', JArr []), (''message'', JStr [0xA0, 0x20, 0x3000])]) ''message''
     = Some (JStr [0xA0, 0x20, 0x3000]) \<and>
   trim [0xA0, 0x20, 0x3000] = [] \<and>
   share steady_browser (obj [(''appstate'', JArr []), (''message'', JStr [0xA0, 0x20, 0x3000])]) =
     Some (\<lparr>status = 400, payload = ErrorBody ''Message is required''\<rparr>, [Responded])"
proof -
  let ?b = "obj [(''appstate'', JArr []), (''message'', JStr [0xA0, 0x20, 0x3000])]"
  have a: "isArray (field ?b ''appstate'')" by code_simp
  have m: "field ?b ''message'' = Some (JStr [0xA0, 0x20, 0x3000])" by code_simp
  have t: "trim [0xA0, 0x20, 0x3000] = []" by code_simp
  show ?thesis using blank_message_rejected[OF a, of steady_browser] a m t by blast
qed

theorem missing_message_other_error:
  "\<not> (field (obj []) ''message'' = None \<longrightarrow>
      share steady_browser (obj []) =
        Some (\<lparr>status = 400, payload = ErrorBody ''Message is required''\<rparr>, [Responded]))"
proof -
  have "share steady_browser (obj []) =
        Some (\<lparr>status = 400, payload = ErrorBody ''Invalid AppState format''\<rparr>, [Responded])"
    by (simp add: share_def share_try_def finish_def field_def obj_def)
  then show ?thesis by (simp add: field_def obj_def)
qed

text \<open>
  C10, as amended. When \<^verbatim>\<open>appstate\<close> and \<^verbatim>\<open>message\<close> pass validation,
  \<^verbatim>\<open>count\<close> is present and \<^verbatim>\<open>parseInt\<close> gives \<^verbatim>\<open>NaN\<close> for it, the clamped
  count is \<^verbatim>\<open>NaN\<close> and no attempt is started. When moreover \<^verbatim>\<open>delay\<close> is
  coerced and the browser and its page open, the answer is status 200 with
  \<^verbatim>\<open>success: true\<close>, an empty results array and a summary whose \<open>total\<close> and
  \<open>successRate\<close> are \<^verbatim>\<open>NaN\<close>, sent after the browser was acquired and before it
  is closed. Otherwise the answer is the status 500 of the error raised on the way to
  the loop: by the coercion of \<^verbatim>\<open>delay\<close>, by \<^verbatim>\<open>puppeteer.launch\<close>, or by the
  set-up of the page. As stated, with \<^verbatim>\<open>success: true\<close> for every such request,
  the claim fails when \<^verbatim>\<open>delay\<close> is an object with an own member
  \<^verbatim>\<open>toString\<close>: \<^verbatim>\<open>parseInt(delay)\<close> raises and the answer is 500.
\<close>

theorem unparsable_count_runs_nothing:
  assumes "isArray (field b ''appstate'')" and "message_blank (field b ''message'') = Inr False"
    and "field b ''count'' = Some v" and "parseInt v = Inr NaN"
  shows "count_of b = Inr NaN \<and>
         share env b =
           Some (case delay_of b of
                   Inl e \<Rightarrow>
                     (\<lparr>status = 500, payload = ErrorBody (''Sharing failed: '' @ e)\<rparr>,
                      [Responded])
                 | Inr d \<Rightarrow>
                     (case launch env of
                        Some e \<Rightarrow>
                          (\<lparr>status = 500, payload = ErrorBody (''Sharing failed: '' @ e)\<rparr>,
                           [LaunchCalled, Responded])
                      | None \<Rightarrow>
                          (case open_page env (elements (field b ''appstate'')) of
                             Some e \<Rightarrow>
                               (\<lparr>status = 500, payload = ErrorBody (''Sharing failed: '' @ e)\<rparr>,
                                [LaunchCalled, BrowserAcquired, Responded, BrowserClosed])
                           | None \<Rightarrow>
                               (\<lparr>status = 200,
                                 payload = Shared []
                                   \<lparr>total = NaN, successful = 0, failed = 0,
                                    successRate = NaN\<rparr>\<rparr>,
                                [LaunchCalled, BrowserAcquired, Responded, BrowserClosed]))))"
proof -
  have c: "count_of b = Inr NaN" using assms(3,4) by (rule count_of_NaN)
  have tr: "truthy (field b ''appstate'')" using assms(1) by (rule isArray_truthy)
  have loop: "attempts_loop pgs msg lnk NaN dly 0 ([], []) = Some ([], [])" for pgs msg lnk dly
    by (subst attempts_loop.simps) simp
  have sm: "summary_of [] NaN = \<lparr>total = NaN, successful = 0, failed = 0, successRate = NaN\<rparr>"
    by (simp add: summary_of_def successRate_of_def)
  note unfold = share_def share_try_def Let_def count_of_def[symmetric] delay_of_def[symmetric]
  show ?thesis
  proof (cases "delay_of b")
    case (Inl e)
    then show ?thesis
      unfolding unfold by (simp add: assms(1,2) tr c finish_def)
  next
    case d: (Inr d)
    show ?thesis
    proof (cases "launch env")
      case (Some e)
      then show ?thesis
        unfolding unfold by (simp add: assms(1,2) tr c d finish_def)
    next
      case l: None
      show ?thesis
      proof (cases "open_page env (elements (field b ''appstate''))")
        case (Some e)
        then show ?thesis
          unfolding unfold by (simp add: assms(1,2) tr c d l finish_def)
      next
        case None
        then show ?thesis
          unfolding unfold by (simp add: assms(1,2) tr c d l loop sm finish_def)
      qed
    qed
  qed
qed

theorem unparsable_count_runs_nothing_witness:
  "isArray (field (obj [(''appstate'', JArr []), (''message'', str ''hi''),
                        (''count'', str ''abc'')]) ''appstate'') \<and>
   message_blank (field (obj [(''appstate'', JArr []), (''message'', str ''hi''),
                              (''count'', str ''abc'')]) ''message'') = Inr False \<and>
   field (obj [(''appstate'', JArr []), (''message'', str ''hi''), (''count'', str ''abc'')])
     ''count'' = Some (str ''abc'') \<and>
   parseInt (str ''abc'') = Inr NaN \<and>
   share steady_browser
     (obj [(''appstate'', JArr []), (''message'', str ''hi''), (''count'', str ''abc'')]) =
     Some (\<lparr>status = 200,
            payload = Shared [] \<lparr>total = NaN, successful = 0, failed = 0, successRate = NaN\<rparr>\<rparr>,
           [LaunchCalled, BrowserAcquired, Responded, BrowserClosed])"
proof -
  let ?b = "obj [(''appstate'', JArr []), (''message'', str ''hi''), (''count'', str ''abc'')]"
  have a: "isArray (field ?b ''appstate'')" by code_simp
  have m: "message_blank (field ?b ''message'') = Inr False" by code_simp
  have f: "field ?b ''count'' = Some (str ''abc'')" by code_simp
  have p: "parseInt (str ''abc'') = Inr NaN" by code_simp
  have d: "delay_of ?b = Inr (Num 15)" by code_simp
  have l: "launch steady_browser = None" by code_simp
  have o: "open_page steady_browser (elements (field ?b ''appstate'')) = None" by code_simp
  show ?thesis
    using unparsable_count_runs_nothing[OF a m f p, of steady_browser] a m f p
    unfolding d l o by simp
qed

theorem unparsable_count_unreadable_delay:
  "\<not> (isArray (field (obj [(''appstate'', JArr []), (''message'', str ''hi''),
                            (''count'', str ''abc''),
                            (''delay'', JObj (obj [(''toString'', whole 1)]))]) ''appstate'') \<and>
       message_blank (field (obj [(''appstate'', JArr []), (''message'', str ''hi''),
                                  (''count'', str ''abc''),
                                  (''delay'', JObj (obj [(''toString'', whole 1)]))]) ''message'')
         = Inr False \<and>
       field (obj [(''appstate'', JArr []), (''message'', str ''hi''), (''count'', str ''abc''),
                   (''delay'', JObj (obj [(''toString'', whole 1)]))]) ''count''
         = Some (str ''abc'') \<and>
       parseInt (str ''abc'') = Inr NaN \<longrightarrow>
       share steady_browser
         (obj [(''appstate'', JArr []), (''message'', str ''hi''), (''count'', str ''abc''),
               (''delay'', JObj (obj [(''toString'', whole 1)]))]) =
       Some (\<lparr>status = 200,
              payload = Shared [] \<lparr>total = NaN, successful = 0, failed = 0, successRate = NaN\<rparr>\<rparr>,
             [LaunchCalled, BrowserAcquired, Responded, BrowserClosed]))"
proof -
  let ?b = "obj [(''appstate'', JArr []), (''message'', str ''hi''), (''count'', str ''abc''),
                 (''delay'', JObj (obj [(''toString'', whole 1)]))]"
  have a: "isArray (field ?b ''appstate'')" by code_simp
  have m: "message_blank (field ?b ''message'') = Inr False" by code_simp
  have f: "field ?b ''count'' = Some (str ''abc'')" by code_simp
  have p: "parseInt (str ''abc'') = Inr NaN" by code_simp
  have "share steady_browser ?b =
        Some (\<lparr>status = 500,
               payload = ErrorBody ''Sharing failed: Cannot convert object to primitive value''\<rparr>,
              [Responded])"
    by code_simp
  then show ?thesis using a m f p by simp
qed

end
